theory Spec2Isabelle
  imports Main "HOL-Library.Sublist"
begin

section \<open>Text sanitisation helpers (sanitizeAssistantText, sanitizeFileContent)\<close>

subsection \<open>JavaScript strings, character classes and letter case\<close>

text \<open>
  A JavaScript string is a sequence of UTF-16 code units. The model is a \<open>string\<close>: a list
  of code units below 256, read as Latin-1. On this range \<open>toLowerCase\<close> keeps the length
  of a string, \<open>\s\<close> and \<open>trim\<close> use the same seven characters, and under the \<open>i\<close> flag
  (without \<open>u\<close>) a code unit from 128 on never canonicalises to an ASCII letter, so an
  ASCII pattern letter matches exactly its two ASCII cases.
\<close>

definition newline :: char where
  "newline = CHR 0x0A"

definition is_space :: "char \<Rightarrow> bool" where
  "is_space c = (c \<in> set [CHR 0x09, CHR 0x0A, CHR 0x0B, CHR 0x0C, CHR 0x0D, CHR '' '', CHR 0xA0])"

definition is_word :: "char \<Rightarrow> bool" where
  "is_word c = (c \<in> set ''abcdefghijklmnopqrstuvwxyzABCDEFGHIJKLMNOPQRSTUVWXYZ0123456789_'')"

definition ascii_case_table :: "(char \<times> char) list" where
  "ascii_case_table = zip ''ABCDEFGHIJKLMNOPQRSTUVWXYZ'' ''abcdefghijklmnopqrstuvwxyz''"

definition latin1_case_table :: "(char \<times> char) list" where
  "latin1_case_table = zip
     [CHR 0xC0, CHR 0xC1, CHR 0xC2, CHR 0xC3, CHR 0xC4, CHR 0xC5, CHR 0xC6, CHR 0xC7,
      CHR 0xC8, CHR 0xC9, CHR 0xCA, CHR 0xCB, CHR 0xCC, CHR 0xCD, CHR 0xCE, CHR 0xCF,
      CHR 0xD0, CHR 0xD1, CHR 0xD2, CHR 0xD3, CHR 0xD4, CHR 0xD5, CHR 0xD6,
      CHR 0xD8, CHR 0xD9, CHR 0xDA, CHR 0xDB, CHR 0xDC, CHR 0xDD, CHR 0xDE]
     [CHR 0xE0, CHR 0xE1, CHR 0xE2, CHR 0xE3, CHR 0xE4, CHR 0xE5, CHR 0xE6, CHR 0xE7,
      CHR 0xE8, CHR 0xE9, CHR 0xEA, CHR 0xEB, CHR 0xEC, CHR 0xED, CHR 0xEE, CHR 0xEF,
      CHR 0xF0, CHR 0xF1, CHR 0xF2, CHR 0xF3, CHR 0xF4, CHR 0xF5, CHR 0xF6,
      CHR 0xF8, CHR 0xF9, CHR 0xFA, CHR 0xFB, CHR 0xFC, CHR 0xFD, CHR 0xFE]"

definition lower_char :: "char \<Rightarrow> char" where
  "lower_char c =
     (case map_of (ascii_case_table @ latin1_case_table) c of Some l \<Rightarrow> l | None \<Rightarrow> c)"

definition toLowerCase :: "string \<Rightarrow> string" where
  "toLowerCase s = map lower_char s"

text \<open>The \<open>i\<close> flag compares canonicalised code units; only ASCII letters matter here.\<close>

definition canonicalize :: "char \<Rightarrow> char" where
  "canonicalize c = (case map_of ascii_case_table c of Some l \<Rightarrow> l | None \<Rightarrow> c)"

definition trim :: "string \<Rightarrow> string" where
  "trim s = rev (dropWhile is_space (rev (dropWhile is_space s)))"

subsection \<open>Matching a pattern at the head of a string\<close>

text \<open>
  A matcher takes the text from the position where the match is tried and returns the
  text left after the match, or \<open>None\<close> when the pattern does not match there.
  \<open>lit\<close> is a literal, \<open>lit_i\<close> a literal under the \<open>i\<close> flag.
\<close>

fun lit :: "string \<Rightarrow> string \<Rightarrow> string option" where
  "lit [] s = Some s"
| "lit (p # ps) [] = None"
| "lit (p # ps) (c # cs) = (if p = c then lit ps cs else None)"

fun lit_i :: "string \<Rightarrow> string \<Rightarrow> string option" where
  "lit_i [] s = Some s"
| "lit_i (p # ps) [] = None"
| "lit_i (p # ps) (c # cs) = (if canonicalize p = canonicalize c then lit_i ps cs else None)"

text \<open>
  An alternation of literals. The regular expression tries the alternatives in order and
  moves to the next one when the rest of the pattern fails; no two alternatives of the
  patterns below match the same text (none is a prefix of another), so the first
  alternative that matches is the only one.
\<close>

fun alt_i :: "string list \<Rightarrow> string \<Rightarrow> string option" where
  "alt_i [] s = None"
| "alt_i (a # as) s = (case lit_i a s of Some r \<Rightarrow> Some r | None \<Rightarrow> alt_i as s)"

text \<open>The lazy \<open>[\s\S]*?\<close> followed by a literal: the text after its first occurrence.\<close>

fun after_first_i :: "string \<Rightarrow> string \<Rightarrow> string option" where
  "after_first_i pat [] = lit_i pat []"
| "after_first_i pat (c # cs) =
     (case lit_i pat (c # cs) of Some r \<Rightarrow> Some r | None \<Rightarrow> after_first_i pat cs)"

text \<open>
  \<open>text.replace(re, "")\<close> for a pattern anchored with \<open>^\<close> and without the \<open>g\<close> flag,
  and for a pattern with the \<open>g\<close> flag: the scan restarts where the last match ended
  (the counter is the number of matched code units still to drop).
\<close>

definition replace_first :: "(string \<Rightarrow> string option) \<Rightarrow> string \<Rightarrow> string" where
  "replace_first re s = (case re s of Some r \<Rightarrow> r | None \<Rightarrow> s)"

fun replace_scan :: "(string \<Rightarrow> string option) \<Rightarrow> nat \<Rightarrow> string \<Rightarrow> string" where
  "replace_scan re k [] = []"
| "replace_scan re (Suc k) (c # cs) = replace_scan re k cs"
| "replace_scan re 0 (c # cs) =
     (case re (c # cs) of
        Some r \<Rightarrow>
          if length r \<le> length cs then replace_scan re (length cs - length r) cs
          else c # replace_scan re 0 cs
      | None \<Rightarrow> c # replace_scan re 0 cs)"

definition replace_all :: "(string \<Rightarrow> string option) \<Rightarrow> string \<Rightarrow> string" where
  "replace_all re s = replace_scan re 0 s"

subsection \<open>stripLeadingArtifacts\<close>

definition CHANNEL_NAMES :: "string list" where
  "CHANNEL_NAMES = [''analysis'', ''assistant'', ''user'', ''system'', ''thinking'',
     ''deliberate'', ''coT'', ''im_start'', ''im_end'', ''channel'']"

text \<open>\<^verbatim>\<open><\|(?:analysis|assistant|...|channel)\|>\<close> under the \<open>i\<close> flag.\<close>

definition channel_token :: "string \<Rightarrow> string option" where
  "channel_token s =
     (case lit_i ''<|'' s of
        None \<Rightarrow> None
      | Some r \<Rightarrow> (case alt_i CHANNEL_NAMES r of None \<Rightarrow> None | Some r' \<Rightarrow> lit_i ''|>'' r'))"

lemma lit_length: "lit pat s = Some r \<Longrightarrow> length s = length pat + length r"
  by (induction pat s rule: lit.induct) (auto split: if_splits)

lemma lit_i_length: "lit_i pat s = Some r \<Longrightarrow> length s = length pat + length r"
  by (induction pat s rule: lit_i.induct) (auto split: if_splits)

lemma alt_i_length: "alt_i as s = Some r \<Longrightarrow> length r \<le> length s"
  by (induction as) (auto split: option.splits dest: lit_i_length)

lemma channel_token_length: "channel_token s = Some r \<Longrightarrow> length r < length s"
  by (auto simp: channel_token_def split: option.splits
      dest!: lit_i_length alt_i_length)

text \<open>
  The greedy group \<^verbatim>\<open>(?:<\|...\|>\s*)*\<close>: as many tokens, each with all the white space
  after it, as there are. Nothing follows the group in the pattern, so the longest match
  is the match.
\<close>

function channel_tokens :: "string \<Rightarrow> string" where
  "channel_tokens s =
     (case channel_token s of
        None \<Rightarrow> s
      | Some r \<Rightarrow> channel_tokens (dropWhile is_space r))"
  by pat_completeness auto
termination
proof (relation "measure length")
  show "wf (measure length)" by simp
next
  fix s r
  assume "channel_token s = Some r"
  then have "length r < length s" by (rule channel_token_length)
  moreover have "length (dropWhile is_space r) \<le> length r" by (rule length_dropWhile_le)
  ultimately show "(dropWhile is_space r, s) \<in> measure length" by simp
qed

declare channel_tokens.simps [simp del]

text \<open>\<^verbatim>\<open>/^(?:<\|(?:analysis|...|channel)\|>\s*)+/i\<close>\<close>

definition re_leading_channel :: "string \<Rightarrow> string option" where
  "re_leading_channel s =
     (case channel_token s of
        None \<Rightarrow> None
      | Some r \<Rightarrow> Some (channel_tokens (dropWhile is_space r)))"

text \<open>\<^verbatim>\<open>/^<\|start_header_id\|>[\s\S]*?<\|end_header_id\|>\s*/i\<close>\<close>

definition re_leading_header :: "string \<Rightarrow> string option" where
  "re_leading_header s =
     (case lit_i ''<|start_header_id|>'' s of
        None \<Rightarrow> None
      | Some r \<Rightarrow>
          (case after_first_i ''<|end_header_id|>'' r of
             None \<Rightarrow> None
           | Some r' \<Rightarrow> Some (dropWhile is_space r')))"

text \<open>
  \<^verbatim>\<open>/^\s*(?:analysis|thinking)\s*>\s*/i\<close>. Each \<open>\s*\<close> is followed by a character that
  is not white space, so giving back white space never helps: the greedy run is the match.
\<close>

definition re_leading_prefix :: "string \<Rightarrow> string option" where
  "re_leading_prefix s =
     (case alt_i [''analysis'', ''thinking''] (dropWhile is_space s) of
        None \<Rightarrow> None
      | Some r \<Rightarrow>
          (case lit ''>'' (dropWhile is_space r) of
             None \<Rightarrow> None
           | Some r' \<Rightarrow> Some (dropWhile is_space r')))"

definition LEADING_PATTERNS :: "(string \<Rightarrow> string option) list" where
  "LEADING_PATTERNS = [re_leading_channel, re_leading_header, re_leading_prefix]"

text \<open>
  The body of the \<open>while\<close> loop: the \<open>for\<close> loop over the patterns, threading \<open>result\<close>
  and \<open>matched\<close>.
\<close>

fun leading_pass :: "(string \<Rightarrow> string option) list \<Rightarrow> string \<Rightarrow> bool \<Rightarrow> string \<times> bool" where
  "leading_pass [] result matched = (result, matched)"
| "leading_pass (re # res) result matched =
     (let result' = replace_first re result
      in leading_pass res result' (if result' \<noteq> result then True else matched))"

lemma after_first_i_length: "after_first_i pat s = Some r \<Longrightarrow> length r \<le> length s"
  by (induction s) (auto split: option.splits dest: lit_i_length)

lemma channel_tokens_length: "length (channel_tokens s) \<le> length s"
proof (induction s rule: channel_tokens.induct)
  case (1 s)
  show ?case
  proof (cases "channel_token s")
    case None
    then show ?thesis by (simp add: channel_tokens.simps)
  next
    case (Some r)
    have "length (channel_tokens (dropWhile is_space r)) \<le> length (dropWhile is_space r)"
      using "1" Some by simp
    also have "\<dots> \<le> length r" by (rule length_dropWhile_le)
    also have "\<dots> \<le> length s" using channel_token_length [OF Some] by simp
    finally show ?thesis using Some by (simp add: channel_tokens.simps)
  qed
qed

lemma re_leading_channel_length: "re_leading_channel s = Some r \<Longrightarrow> length r < length s"
proof -
  assume a: "re_leading_channel s = Some r"
  then obtain t where t: "channel_token s = Some t" and r: "r = channel_tokens (dropWhile is_space t)"
    by (auto simp: re_leading_channel_def split: option.splits)
  have "length r \<le> length (dropWhile is_space t)" unfolding r by (rule channel_tokens_length)
  also have "\<dots> \<le> length t" by (rule length_dropWhile_le)
  also have "\<dots> < length s" by (rule channel_token_length [OF t])
  finally show ?thesis .
qed

lemma re_leading_header_length: "re_leading_header s = Some r \<Longrightarrow> length r < length s"
proof -
  assume a: "re_leading_header s = Some r"
  then obtain t u where t: "lit_i ''<|start_header_id|>'' s = Some t"
    and u: "after_first_i ''<|end_header_id|>'' t = Some u" and r: "r = dropWhile is_space u"
    by (auto simp: re_leading_header_def split: option.splits)
  have "length r \<le> length u" unfolding r by (rule length_dropWhile_le)
  also have "\<dots> \<le> length t" by (rule after_first_i_length [OF u])
  also have "\<dots> < length s" using lit_i_length [OF t] by simp
  finally show ?thesis .
qed

lemma re_leading_prefix_length: "re_leading_prefix s = Some r \<Longrightarrow> length r < length s"
proof -
  assume a: "re_leading_prefix s = Some r"
  then obtain t u where t: "alt_i [''analysis'', ''thinking''] (dropWhile is_space s) = Some t"
    and u: "lit ''>'' (dropWhile is_space t) = Some u" and r: "r = dropWhile is_space u"
    by (auto simp: re_leading_prefix_def split: option.splits)
  have "length r \<le> length u" unfolding r by (rule length_dropWhile_le)
  also have "\<dots> < length (dropWhile is_space t)" using lit_length [OF u] by simp
  also have "\<dots> \<le> length t" by (rule length_dropWhile_le)
  also have "\<dots> \<le> length (dropWhile is_space s)" by (rule alt_i_length [OF t])
  also have "\<dots> \<le> length s" by (rule length_dropWhile_le)
  finally show ?thesis .
qed

definition shortening :: "(string \<Rightarrow> string option) \<Rightarrow> bool" where
  "shortening re = (\<forall>s r. re s = Some r \<longrightarrow> length r < length s)"

lemma LEADING_PATTERNS_shortening: "\<forall>re \<in> set LEADING_PATTERNS. shortening re"
  by (auto simp: LEADING_PATTERNS_def shortening_def
      dest: re_leading_channel_length re_leading_header_length re_leading_prefix_length)

lemma replace_first_length:
  "shortening re \<Longrightarrow> length (replace_first re s) \<le> length s"
  by (auto simp: shortening_def replace_first_def split: option.splits dest: less_imp_le)

lemma replace_first_changed:
  "shortening re \<Longrightarrow> replace_first re s \<noteq> s \<Longrightarrow> length (replace_first re s) < length s"
  by (auto simp: shortening_def replace_first_def split: option.splits)

lemma leading_pass_length:
  "\<forall>re \<in> set res. shortening re \<Longrightarrow> leading_pass res s m = (r, m') \<Longrightarrow>
     length r \<le> length s \<and> (m' \<and> \<not> m \<longrightarrow> length r < length s)"
proof (induction res arbitrary: s m)
  case Nil
  then show ?case by simp
next
  case (Cons re res)
  let ?s' = "replace_first re s"
  let ?m = "if ?s' \<noteq> s then True else m"
  have sh: "shortening re" using Cons.prems(1) by simp
  have run: "leading_pass res ?s' ?m = (r, m')" using Cons.prems(2) by (simp add: Let_def)
  have ih: "length r \<le> length ?s' \<and> (m' \<and> \<not> ?m \<longrightarrow> length r < length ?s')"
    using Cons.IH [OF _ run] Cons.prems(1) by simp
  have le: "length ?s' \<le> length s" by (rule replace_first_length [OF sh])
  show ?case
  proof (cases "?s' = s")
    case True
    then show ?thesis using ih by simp
  next
    case False
    then have "length ?s' < length s" by (rule replace_first_changed [OF sh])
    then show ?thesis using ih by simp
  qed
qed

text \<open>
  The \<open>while (matched)\<close> loop. \<open>matched\<close> starts true, so the body runs at least once;
  each further round follows a round that removed something, which is why the loop ends.
\<close>

lemma leading_pass_decreases:
  "(r, True) = leading_pass LEADING_PATTERNS s False \<Longrightarrow> length r < length s"
  using leading_pass_length [OF LEADING_PATTERNS_shortening, of s False r True] by simp

function strip_loop :: "string \<Rightarrow> string" where
  "strip_loop result =
     (case leading_pass LEADING_PATTERNS result False of
        (result', matched) \<Rightarrow> if matched then strip_loop result' else result')"
  by pat_completeness auto
termination
  by (relation "measure length") (auto dest: leading_pass_decreases)

declare strip_loop.simps [simp del]

definition stripLeadingArtifacts :: "string \<Rightarrow> string" where
  "stripLeadingArtifacts text = strip_loop text"

subsection \<open>stripThinkingTags and stripInlineChatMl\<close>

text \<open>\<^verbatim>\<open>/<thinking>\s?/g\<close> (no \<open>i\<close> flag)\<close>

definition re_thinking_open :: "string \<Rightarrow> string option" where
  "re_thinking_open s =
     (case lit ''<thinking>'' s of
        None \<Rightarrow> None
      | Some r \<Rightarrow> Some (case r of [] \<Rightarrow> [] | c # cs \<Rightarrow> if is_space c then cs else c # cs))"

text \<open>
  \<^verbatim>\<open>/\s?<\/thinking>/g\<close>: the optional white space is tried first, and given back when
  the closing tag does not follow it.
\<close>

definition re_thinking_close :: "string \<Rightarrow> string option" where
  "re_thinking_close s =
     (case s of
        [] \<Rightarrow> None
      | c # cs \<Rightarrow>
          (case (if is_space c then lit ''</thinking>'' cs else None) of
             Some r \<Rightarrow> Some r
           | None \<Rightarrow> lit ''</thinking>'' s))"

definition stripThinkingTags :: "string \<Rightarrow> string" where
  "stripThinkingTags text = replace_all re_thinking_close (replace_all re_thinking_open text)"

text \<open>\<^verbatim>\<open>/<\|im_start\|>\s*\w+\s*/gi\<close>: \<open>\w+\<close> needs one word character at least.\<close>

definition re_im_start :: "string \<Rightarrow> string option" where
  "re_im_start s =
     (case lit_i ''<|im_start|>'' s of
        None \<Rightarrow> None
      | Some r \<Rightarrow>
          (let r1 = dropWhile is_space r in
           case r1 of
             [] \<Rightarrow> None
           | c # cs \<Rightarrow>
               if is_word c then Some (dropWhile is_space (dropWhile is_word r1)) else None))"

text \<open>\<^verbatim>\<open>/<\|im_end\|>/gi\<close>\<close>

definition re_im_end :: "string \<Rightarrow> string option" where
  "re_im_end s = lit_i ''<|im_end|>'' s"

definition stripInlineChatMl :: "string \<Rightarrow> string" where
  "stripInlineChatMl text =
     replace_all channel_token (replace_all re_im_end (replace_all re_im_start text))"

subsection \<open>sanitizeAssistantText\<close>

text \<open>\<open>!raw\<close> on a string: only the empty string is falsy.\<close>

definition sanitizeAssistantText :: "string \<Rightarrow> string" where
  "sanitizeAssistantText raw =
     (if raw = [] then raw
      else stripInlineChatMl (stripThinkingTags (stripLeadingArtifacts raw)))"

text \<open>
  Whether a pattern matches somewhere in a text, and a text in which no pattern of the
  sanitiser matches: none of the three leading patterns at its start, and none of the
  five global patterns at any position.
\<close>

fun occurs :: "(string \<Rightarrow> string option) \<Rightarrow> string \<Rightarrow> bool" where
  "occurs re [] = (re [] \<noteq> None)"
| "occurs re (c # cs) = (re (c # cs) \<noteq> None \<or> occurs re cs)"

definition artifact_free :: "string \<Rightarrow> bool" where
  "artifact_free t =
     (re_leading_channel t = None \<and> re_leading_header t = None \<and> re_leading_prefix t = None
      \<and> \<not> occurs re_thinking_open t \<and> \<not> occurs re_thinking_close t
      \<and> \<not> occurs re_im_start t \<and> \<not> occurs re_im_end t \<and> \<not> occurs channel_token t)"

subsection \<open>extractFencedCode\<close>

record block =
  lang :: string
  body :: string

text \<open>
  \<^verbatim>\<open>[a-z0-9_+-]\<close> under the \<open>i\<close> flag also takes the capital letters.
\<close>

definition is_lang_char :: "char \<Rightarrow> bool" where
  "is_lang_char c =
     (c \<in> set ''abcdefghijklmnopqrstuvwxyzABCDEFGHIJKLMNOPQRSTUVWXYZ0123456789_+-'')"

text \<open>
  The lazy body \<^verbatim>\<open>([\s\S]*?)\n```\<close>: the text up to the first line break that three
  backquotes follow, and the text after those.
\<close>

fun fence_body :: "string \<Rightarrow> (string \<times> string) option" where
  "fence_body [] = None"
| "fence_body (c # cs) =
     (case lit (newline # ''```'') (c # cs) of
        Some r \<Rightarrow> Some ([], r)
      | None \<Rightarrow> (case fence_body cs of None \<Rightarrow> None | Some (b, r) \<Rightarrow> Some (c # b, r)))"

text \<open>
  \<^verbatim>\<open>\s*\n\<close> before the body: the greedy \<open>\s*\<close> first takes the white space (line
  breaks too) and gives it back one character at a time until the character after it is
  a line break from which the rest of the pattern matches.
\<close>

fun fence_head :: "string \<Rightarrow> (string \<times> string) option" where
  "fence_head [] = None"
| "fence_head (c # cs) =
     (if is_space c then
        (case fence_head cs of
           Some m \<Rightarrow> Some m
         | None \<Rightarrow> if c = newline then fence_body cs else None)
      else None)"

text \<open>
  \<^verbatim>\<open>/```([a-z0-9_+-]*)\s*\n([\s\S]*?)\n```/gi\<close> tried at one position: the two groups
  and the text after the match. A shorter first group is followed by a language
  character, which is neither white space nor a line break, so only the longest is tried.
\<close>

definition fenceRe :: "string \<Rightarrow> (string \<times> string \<times> string) option" where
  "fenceRe s =
     (case lit ''```'' s of
        None \<Rightarrow> None
      | Some r \<Rightarrow>
          (case fence_head (dropWhile is_lang_char r) of
             None \<Rightarrow> None
           | Some (b, r') \<Rightarrow> Some (takeWhile is_lang_char r, b, r')))"

text \<open>
  The loop over \<open>fenceRe.exec(text)\<close>: each search starts where the last match ended
  (the counter is the number of matched code units still to pass).
\<close>

fun fence_blocks :: "nat \<Rightarrow> string \<Rightarrow> block list" where
  "fence_blocks k [] = []"
| "fence_blocks (Suc k) (c # cs) = fence_blocks k cs"
| "fence_blocks 0 (c # cs) =
     (case fenceRe (c # cs) of
        Some (m1, m2, r) \<Rightarrow>
          \<lparr>lang = trim (toLowerCase m1), body = m2\<rparr> # fence_blocks (length cs - length r) cs
      | None \<Rightarrow> fence_blocks 0 cs)"

fun indexOf_from :: "nat \<Rightarrow> string \<Rightarrow> string \<Rightarrow> int" where
  "indexOf_from i [] pat = (if pat = [] then int i else - 1)"
| "indexOf_from i (c # cs) pat =
     (if lit pat (c # cs) \<noteq> None then int i else indexOf_from (Suc i) cs pat)"

definition indexOf :: "string \<Rightarrow> string \<Rightarrow> int" where
  "indexOf s pat = indexOf_from 0 s pat"

fun lastIndexOf_from :: "nat \<Rightarrow> string \<Rightarrow> string \<Rightarrow> int" where
  "lastIndexOf_from i [] pat = (if pat = [] then int i else - 1)"
| "lastIndexOf_from i (c # cs) pat =
     (let later = lastIndexOf_from (Suc i) cs pat
      in if later \<noteq> - 1 then later
         else if lit pat (c # cs) \<noteq> None then int i else - 1)"

definition lastIndexOf :: "string \<Rightarrow> string \<Rightarrow> int" where
  "lastIndexOf s pat = lastIndexOf_from 0 s pat"

definition includes_str :: "string \<Rightarrow> string \<Rightarrow> bool" where
  "includes_str s pat = (indexOf s pat \<noteq> - 1)"

text \<open>\<open>s.slice(a, b)\<close> for indices that are not negative.\<close>

definition slice :: "string \<Rightarrow> nat \<Rightarrow> nat \<Rightarrow> string" where
  "slice s a b = take (b - a) (drop a s)"

text \<open>
  \<open>expectedLanguage\<close> is optional: \<open>None\<close> is \<open>undefined\<close>. The result is \<open>None\<close> for
  \<open>null\<close>.
\<close>

definition extractFencedCode :: "string \<Rightarrow> string option \<Rightarrow> string option" where
  "extractFencedCode text expectedLanguage =
     (let blocks = fence_blocks 0 text in
      if length blocks = 0 then None
      else
        (case (case expectedLanguage of
                 None \<Rightarrow> None
               | Some el \<Rightarrow>
                   if el = [] then None
                   else find (\<lambda>b. includes_str (lang b) (toLowerCase el)) blocks) of
           Some preferred \<Rightarrow> Some (trim (body preferred))
         | None \<Rightarrow>
             Some (trim (foldl (\<lambda>a b. if length (body b) > length a then body b else a)
                           [] blocks))))"

subsection \<open>extractHtmlDocument\<close>

definition extractHtmlDocument :: "string \<Rightarrow> string option" where
  "extractHtmlDocument text =
     (let lower = toLowerCase text;
          startIdx = max (indexOf lower ''<!doctype'') (indexOf lower ''<html'');
          endIdx = lastIndexOf lower ''</html>''
      in if startIdx \<noteq> - 1 \<and> endIdx \<noteq> - 1 \<and> endIdx > startIdx
         then Some (trim (slice text (nat startIdx) (nat (endIdx + int (length ''</html>'')))))
         else None)"

subsection \<open>sanitizeFileContent\<close>

text \<open>\<open>if (html)\<close> and \<open>if (fenced)\<close>: \<open>null\<close> and the empty string are falsy.\<close>

definition truthy :: "string option \<Rightarrow> bool" where
  "truthy v = (case v of None \<Rightarrow> False | Some s \<Rightarrow> s \<noteq> [])"

definition sanitizeFileContent :: "string \<Rightarrow> string option \<Rightarrow> string" where
  "sanitizeFileContent raw expectedLanguage =
     (if raw = [] then raw
      else
        (let text = sanitizeAssistantText raw;
             html = extractHtmlDocument text
         in if truthy html then the html
            else
              (let fenced = extractFencedCode text expectedLanguage
               in if truthy fenced then the fenced else text)))"

section \<open>The protocol buffer build script (scripts/build-proto.mjs)\<close>

subsection \<open>The world outside the script\<close>

text \<open>
  The script is a sequence of effects on the file tree and on child processes. The file
  tree is a map from absolute paths to file contents (directories are not kept: a
  directory is there when a file lies below it). Paths are POSIX paths, already normal
  (no \<open>.\<close>, \<open>..\<close> or doubled separator), as every path literal of the script is.
\<close>

type_synonym path = string
type_synonym fs = "path \<rightharpoonup> string"

text \<open>
  An error value: \<open>JsError message\<close> is an \<open>Error\<close> with that message.
  \<open>ExecError command message\<close> is the error that \<open>execSync\<close> throws when \<open>command\<close>
  fails. Node builds it in \<open>child_process\<close>: for a command that ends with a status
  other than 0 the message is \<open>Command failed:\<close> followed by the command line (and by
  what was captured of its standard error), and for a shell that cannot be started the
  error carries the command in its \<open>spawnargs\<close>. Either way the error names the command
  it was thrown for, and \<open>console.error\<close> prints it so.
\<close>

datatype js_error = JsError string | ExecError string string

text \<open>One argument of \<open>console.log\<close> or \<open>console.error\<close>.\<close>

datatype js_value = Str string | Err js_error

text \<open>
  What a run does, in order, as an observer of the process sees it. \<open>Uncaught\<close> is
  Node's report of an exception that nothing caught.
\<close>

datatype event =
    ConsoleLog "js_value list"
  | ConsoleError "js_value list"
  | ExecSync string
  | Rmrf path
  | Mkdir path
  | Globby string path
  | GenerateProtoBusSetup
  | GenerateHostBridgeClient
  | Uncaught js_error

text \<open>
  How a function of the script ends: it returns, it throws (an \<open>async\<close> function rejects),
  or it calls \<open>process.exit\<close>.
\<close>

datatype 'a result = Returned 'a | Threw js_error | Exit nat

text \<open>
  Everything the script reads or calls and does not define: the process environment;
  the linking of its static imports (\<open>import_error\<close> is the error when one of them
  cannot be loaded); the module resolver (\<open>require.resolve\<close> gives a path or throws);
  child processes (\<open>execSync\<close> gives the standard output of the command, or the message
  of the error thrown when the command failed, and the file tree the command leaves);
  \<open>fs.mkdir\<close>; \<open>globby\<close>; and the two generator modules the script imports, which are
  not part of these sources.
\<close>

record sys =
  env :: "string \<rightharpoonup> string"
  argv :: "string list"
  platform :: string
  arch :: string
  cwd :: path
  import_error :: "js_error option"
  resolve_grpc_tools :: "path option"
  resolve_ts_proto_plugin :: "js_error + path"
  execSync :: "string \<Rightarrow> fs \<Rightarrow> (string + string) \<times> fs"
  mkdir :: "path \<Rightarrow> fs \<Rightarrow> js_error option"
  globby :: "string \<Rightarrow> path \<Rightarrow> fs \<Rightarrow> js_error + string list"
  generateProtoBusSetup :: "fs \<Rightarrow> unit result \<times> fs"
  generateHostBridgeClient :: "fs \<Rightarrow> unit result \<times> fs"

text \<open>The state of one process: the file tree, what it did so far, the two module variables.\<close>

record state =
  files :: fs
  events :: "event list"
  RESOLVED_PROTOC :: "string option"
  RESOLVED_PROTOC_VERSION :: "string option"

definition emit :: "event \<Rightarrow> state \<Rightarrow> state" where
  "emit e st = st\<lparr>events := events st @ [e]\<rparr>"

text \<open>Sequencing: what follows runs only when the step before it returned.\<close>

definition and_then ::
  "'a result \<times> state \<Rightarrow> ('a \<Rightarrow> state \<Rightarrow> 'b result \<times> state) \<Rightarrow> 'b result \<times> state" where
  "and_then m f =
     (case m of
        (Returned x, st) \<Rightarrow> f x st
      | (Threw e, st) \<Rightarrow> (Threw e, st)
      | (Exit n, st) \<Rightarrow> (Exit n, st))"

subsection \<open>Strings and paths\<close>

definition dq :: string where
  "dq = [CHR 0x22]"

definition quoted :: "string \<Rightarrow> string" where
  "quoted s = dq @ s @ dq"

fun join :: "string \<Rightarrow> string list \<Rightarrow> string" where
  "join sep [] = []"
| "join sep [x] = x"
| "join sep (x # y # ys) = x @ sep @ join sep (y # ys)"

fun show_nat :: "nat \<Rightarrow> string" where
  "show_nat n =
     (if n < 10 then [''0123456789'' ! n]
      else show_nat (n div 10) @ [''0123456789'' ! (n mod 10)])"

declare show_nat.simps [simp del]

text \<open>A value in a condition: \<open>undefined\<close>, \<open>null\<close> and the empty string are falsy.\<close>

definition falsy :: "string option \<Rightarrow> bool" where
  "falsy v = (case v of None \<Rightarrow> True | Some s \<Rightarrow> s = [])"

definition absolute :: "path \<Rightarrow> bool" where
  "absolute p = (take 1 p = ''/'')"

text \<open>\<open>path.resolve(p)\<close>; \<open>process.cwd()\<close> is an absolute path.\<close>

definition path_resolve :: "sys \<Rightarrow> path \<Rightarrow> path" where
  "path_resolve sys p = (if absolute p then p else cwd sys @ ''/'' @ p)"

definition dirname :: "path \<Rightarrow> path" where
  "dirname p = rev (drop 1 (dropWhile (\<lambda>c. c \<noteq> CHR ''/'') (rev p)))"

text \<open>\<open>path.join(p, "../bin/protoc")\<close>: the \<open>..\<close> takes the last segment of \<open>p\<close> away.\<close>

definition path_join_up :: "path \<Rightarrow> path \<Rightarrow> path" where
  "path_join_up p rest = dirname p @ ''/'' @ rest"

text \<open>A path is in a directory when it is the directory or lies below it.\<close>

definition in_dir :: "path \<Rightarrow> path \<Rightarrow> bool" where
  "in_dir d p = (p = d \<or> prefix (d @ ''/'') p)"

text \<open>Two directories are apart when neither is the other or lies below it.\<close>

definition apart :: "path \<Rightarrow> path \<Rightarrow> bool" where
  "apart a b = (\<not> in_dir a b \<and> \<not> in_dir b a)"

text \<open>
  Modelled from the spec: \<open>rmrf\<close> of scripts/file-utils.mjs is not part of these sources.
  The spec's "fully clean (delete) that target's previous output" is read as
  \<open>rm -rf\<close>: the path and all below it are gone afterwards, and a path that is not there
  is no error. A relative path is taken from the working directory.
\<close>

definition rmrf :: "sys \<Rightarrow> path \<Rightarrow> state \<Rightarrow> state" where
  "rmrf sys p st =
     emit (Rmrf p)
       (st\<lparr>files := (\<lambda>k. if in_dir (path_resolve sys p) k then None else files st k)\<rparr>)"

definition console_log :: "js_value list \<Rightarrow> state \<Rightarrow> state" where
  "console_log args st = emit (ConsoleLog args) st"

definition console_error :: "js_value list \<Rightarrow> state \<Rightarrow> state" where
  "console_error args st = emit (ConsoleError args) st"

text \<open>\<open>chalk\<close> only colours its argument; the model keeps the text.\<close>

definition log_verbose :: "sys \<Rightarrow> string \<Rightarrow> state \<Rightarrow> state" where
  "log_verbose sys s st =
     (if ''-v'' \<in> set (argv sys) \<or> ''--verbose'' \<in> set (argv sys)
      then console_log [Str s] st else st)"

text \<open>A call of \<open>execSync\<close>: the standard output, or the error thrown for the command.\<close>

definition exec :: "sys \<Rightarrow> string \<Rightarrow> state \<Rightarrow> (js_error + string) \<times> state" where
  "exec sys command st =
     (case execSync sys command (files st) of
        (Inl message, fs') \<Rightarrow>
          (Inl (ExecError command message), emit (ExecSync command) (st\<lparr>files := fs'\<rparr>))
      | (Inr stdout, fs') \<Rightarrow>
          (Inr stdout, emit (ExecSync command) (st\<lparr>files := fs'\<rparr>)))"

subsection \<open>Module constants\<close>

definition PROTO_DIR :: "sys \<Rightarrow> path" where
  "PROTO_DIR sys = path_resolve sys ''proto''"

definition TS_OUT_DIR :: "sys \<Rightarrow> path" where
  "TS_OUT_DIR sys = path_resolve sys ''src/shared/proto''"

definition GRPC_JS_OUT_DIR :: "sys \<Rightarrow> path" where
  "GRPC_JS_OUT_DIR sys = path_resolve sys ''src/generated/grpc-js''"

definition NICE_JS_OUT_DIR :: "sys \<Rightarrow> path" where
  "NICE_JS_OUT_DIR sys = path_resolve sys ''src/generated/nice-grpc''"

definition DESCRIPTOR_OUT_DIR :: "sys \<Rightarrow> path" where
  "DESCRIPTOR_OUT_DIR sys = path_resolve sys ''dist-standalone/proto''"

definition isWindows :: "sys \<Rightarrow> bool" where
  "isWindows sys = (platform sys = ''win32'')"

text \<open>
  Loading the module: the static imports are linked, then the top-level statements run.
  The only one that can throw is the initialiser of \<open>TS_PROTO_PLUGIN\<close>, which calls
  \<open>require.resolve\<close> when the platform is not Windows. The result is the value of
  \<open>TS_PROTO_PLUGIN\<close>, or the error that ends the loading.
\<close>

definition load_module :: "sys \<Rightarrow> js_error + path" where
  "load_module sys =
     (case import_error sys of
        Some error \<Rightarrow> Inl error
      | None \<Rightarrow>
          if isWindows sys then Inr (path_resolve sys ''node_modules/.bin/protoc-gen-ts_proto.cmd'')
          else resolve_ts_proto_plugin sys)"

text \<open>
  The constant as the functions of the module see it. They run only in a module that has
  loaded (\<open>build_proto\<close> below), where the constant has the value \<open>load_module\<close> gave.
\<close>

definition TS_PROTO_PLUGIN :: "sys \<Rightarrow> path" where
  "TS_PROTO_PLUGIN sys = (case load_module sys of Inr plugin \<Rightarrow> plugin | Inl _ \<Rightarrow> [])"

definition TS_PROTO_OPTIONS :: "string list" where
  "TS_PROTO_OPTIONS =
     [''env=node'', ''esModuleInterop=true'', ''outputServices=generic-definitions'',
      ''outputIndex=true'', ''useOptionals=none'', ''useDate=false'']"

subsection \<open>tryProtocVersion and locateProtoc\<close>

text \<open>\<open>{ ok: true, version }\<close> or \<open>{ ok: false, error }\<close>\<close>

datatype version_result = OkVersion string | NotOk js_error

definition tryProtocVersion :: "sys \<Rightarrow> path \<Rightarrow> state \<Rightarrow> version_result \<times> state" where
  "tryProtocVersion sys p st =
     (case exec sys (quoted p @ '' --version'') st of
        (Inr stdout, st') \<Rightarrow>
          (let out = trim stdout
           in if out \<noteq> [] then (OkVersion out, st')
              else (NotOk (JsError ''No version output''), st'))
      | (Inl e, st') \<Rightarrow> (NotOk e, st'))"

text \<open>\<open>s.split(/\r?\n/)\<close>\<close>

fun split_lines :: "string \<Rightarrow> string \<Rightarrow> string list" where
  "split_lines cur [] = [rev cur]"
| "split_lines cur (c # cs) =
     (if c = newline then rev cur # split_lines [] cs
      else if c = CHR 0x0D \<and> cs \<noteq> [] \<and> hd cs = newline then rev cur # split_lines [] (tl cs)
      else split_lines (c # cur) cs)"

text \<open>\<open>result.error?.message || result.error\<close> inside a template string\<close>

definition error_text :: "js_error \<Rightarrow> string" where
  "error_text e =
     (case e of
        JsError m \<Rightarrow> if m \<noteq> [] then m else ''Error''
      | ExecError command m \<Rightarrow> if m \<noteq> [] then m else ''Error'')"

text \<open>
  The three candidates, in the order the script pushes them: the \<open>PROTOC_PATH\<close>
  override, the binary bundled with grpc-tools, the first line that \<open>which\<close> (or
  \<open>where\<close>) prints.
\<close>

definition protoc_candidates :: "sys \<Rightarrow> state \<Rightarrow> path list \<times> state" where
  "protoc_candidates sys st =
     (let override =
            (case env sys ''PROTOC_PATH'' of
               None \<Rightarrow> []
             | Some p \<Rightarrow> if p = [] then [] else [path_resolve sys p]);
          bundled =
            (case resolve_grpc_tools sys of
               None \<Rightarrow> []
             | Some g \<Rightarrow> [path_join_up g ''bin/protoc'']);
          whichCmd = (if platform sys = ''win32'' then ''where protoc'' else ''which protoc'')
      in case exec sys whichCmd st of
           (Inr stdout, st') \<Rightarrow>
             (case find (\<lambda>l. l \<noteq> []) (split_lines [] stdout) of
                None \<Rightarrow> (override @ bundled, st')
              | Some line \<Rightarrow> (override @ bundled @ [line], st'))
         | (Inl _, st') \<Rightarrow> (override @ bundled, st'))"

text \<open>The loop over the candidates; \<open>True\<close> when it left the function by \<open>return\<close>.\<close>

fun try_candidates :: "sys \<Rightarrow> path list \<Rightarrow> state \<Rightarrow> bool \<times> state" where
  "try_candidates sys [] st = (False, st)"
| "try_candidates sys (c # cs) st =
     (case tryProtocVersion sys c st of
        (OkVersion version, st') \<Rightarrow>
          (True,
           log_verbose sys (''[build-proto] Using protoc '' @ version @ '' at '' @ c)
             (st'\<lparr>RESOLVED_PROTOC := Some c, RESOLVED_PROTOC_VERSION := Some version\<rparr>))
      | (NotOk e, st') \<Rightarrow>
          try_candidates sys cs
            (log_verbose sys
               (''[build-proto] Failed protoc candidate '' @ c @ '': '' @ error_text e) st'))"

definition no_protoc_messages :: "state \<Rightarrow> state" where
  "no_protoc_messages st =
     console_error [Str ''  3. (Optional) Set SKIP_PROTOS=1 for a temporary bypass (not for full test suite).'']
    (console_error [Str ''  2. Set PROTOC_PATH to the installed protoc.exe, then re-run: PROTOC_PATH=path/to/protoc npm run protos'']
    (console_error [Str ''  1. Install a system protoc: e.g. via Chocolatey: 'choco install protoc' or download release zip'']
    (console_error [Str ''Resolution steps:'']
    (console_error [Str ''Exit earlier failures may indicate an access violation (0xC0000005).'']
    (console_error [Str ''[build-proto] Could not find a working protoc binary.''] st)))))"

definition locateProtoc :: "sys \<Rightarrow> state \<Rightarrow> unit result \<times> state" where
  "locateProtoc sys st =
     (case protoc_candidates sys st of
        (candidates, st1) \<Rightarrow>
          (case try_candidates sys candidates st1 of
             (True, st2) \<Rightarrow> (Returned (), st2)
           | (False, st2) \<Rightarrow>
               if falsy (RESOLVED_PROTOC st2) then
                 (let st3 = no_protoc_messages st2
                  in if env sys ''ALLOW_PROTO_FAILURE'' = Some ''1''
                     then (Returned (),
                           console_error
                             [Str ''ALLOW_PROTO_FAILURE=1 set; skipping protoc generation and continuing.'']
                             st3)
                     else (Exit 1, st3))
               else (Returned (), st2)))"

subsection \<open>checkAppleSiliconCompatibility\<close>

definition rosetta_messages :: "state \<Rightarrow> state" where
  "rosetta_messages st =
     console_log [Str ''Aborting build process.'']
    (console_log [Str ''  softwareupdate --install-rosetta --agree-to-license'']
    (console_log [Str ''Please install Rosetta 2 using the following command:'']
    (console_log [Str ''Rosetta 2 is NOT installed. The npm version of protoc is not compatible with Apple Silicon.'']
    (console_log [Str ''Detected Apple Silicon (ARM64) architecture.''] st))))"

definition checkAppleSiliconCompatibility :: "sys \<Rightarrow> state \<Rightarrow> unit result \<times> state" where
  "checkAppleSiliconCompatibility sys st =
     (if platform sys \<noteq> ''darwin'' then (Returned (), st)
      else if arch sys = ''arm64'' then
        (case exec sys (''/usr/bin/pgrep oahd || echo '' @ quoted ''NOT_INSTALLED'') st of
           (Inr stdout, st') \<Rightarrow>
             if trim stdout = ''NOT_INSTALLED'' then (Exit 1, rosetta_messages st')
             else (Returned (), st')
         | (Inl _, st') \<Rightarrow>
             (Returned (),
              console_log
                [Str ''Could not determine Rosetta installation status. Proceeding anyway.''] st'))
      else (Returned (), st))"

subsection \<open>tsProtoc and compileProtos\<close>

text \<open>The command line of \<open>tsProtoc\<close>, as the list that is joined with spaces.\<close>

definition tsProtoc_args :: "sys \<Rightarrow> path \<Rightarrow> path \<Rightarrow> string list \<Rightarrow> string list \<Rightarrow> string list" where
  "tsProtoc_args sys protocPath outDir protoFiles protoOptions =
     [protocPath,
      ''--proto_path='' @ quoted (PROTO_DIR sys),
      ''--plugin=protoc-gen-ts_proto='' @ quoted (TS_PROTO_PLUGIN sys),
      ''--ts_proto_out='' @ quoted outDir,
      ''--ts_proto_opt='' @ join '','' protoOptions @ '' '']
     @ map quoted protoFiles"

definition tsProtoc_command :: "sys \<Rightarrow> path \<Rightarrow> path \<Rightarrow> string list \<Rightarrow> string list \<Rightarrow> string" where
  "tsProtoc_command sys protocPath outDir protoFiles protoOptions =
     join '' '' (tsProtoc_args sys protocPath outDir protoFiles protoOptions)"

text \<open>
  \<open>tsProtoc\<close> is declared \<open>async\<close> and has no \<open>await\<close>: its body runs to the end when it
  is called, and \<open>compileProtos\<close> drops the promise it returns.
\<close>

definition tsProtoc :: "sys \<Rightarrow> path \<Rightarrow> path \<Rightarrow> string list \<Rightarrow> string list \<Rightarrow> state \<Rightarrow> unit result \<times> state" where
  "tsProtoc sys protocPath outDir protoFiles protoOptions st =
     (let command = tsProtoc_command sys protocPath outDir protoFiles protoOptions;
          st1 = log_verbose sys
                  (''Generating TypeScript code in '' @ outDir @ '' for:'' @ [newline]
                     @ join [newline] protoFiles @ ''...'') st;
          st2 = log_verbose sys command st1
      in case exec sys command st2 of
           (Inr _, st3) \<Rightarrow> (Returned (), st3)
         | (Inl error, st3) \<Rightarrow>
             (Exit 1,
              console_error [Str ''Error generating TypeScript for proto files:'', Err error] st3))"

definition path_join :: "path \<Rightarrow> path \<Rightarrow> path" where
  "path_join a b = a @ ''/'' @ b"

definition descriptorFile :: "sys \<Rightarrow> path" where
  "descriptorFile sys = path_join (DESCRIPTOR_OUT_DIR sys) ''descriptor_set.pb''"

definition descriptor_args :: "sys \<Rightarrow> path \<Rightarrow> string list \<Rightarrow> string list" where
  "descriptor_args sys protocPath protoFiles =
     [protocPath,
      ''--proto_path='' @ quoted (PROTO_DIR sys),
      ''--descriptor_set_out='' @ quoted (descriptorFile sys),
      ''--include_imports'']
     @ protoFiles"

definition descriptorProtocCommand :: "sys \<Rightarrow> path \<Rightarrow> string list \<Rightarrow> string" where
  "descriptorProtocCommand sys protocPath protoFiles =
     join '' '' (descriptor_args sys protocPath protoFiles)"

definition exportDescriptor :: "sys \<Rightarrow> path \<Rightarrow> string list \<Rightarrow> state \<Rightarrow> unit result \<times> state" where
  "exportDescriptor sys protocPath protoFiles st =
     (let st1 = log_verbose sys ''Generating descriptor set...'' st
      in case exec sys (descriptorProtocCommand sys protocPath protoFiles) st1 of
           (Inr _, st2) \<Rightarrow> (Returned (), st2)
         | (Inl error, st2) \<Rightarrow>
             (Exit 1,
              console_error [Str ''Error generating descriptor set for proto file:'', Err error] st2))"

fun mkdir_all :: "sys \<Rightarrow> path list \<Rightarrow> state \<Rightarrow> unit result \<times> state" where
  "mkdir_all sys [] st = (Returned (), st)"
| "mkdir_all sys (dir # dirs) st =
     (let st' = emit (Mkdir dir) st
      in case mkdir sys dir (files st') of
           Some e \<Rightarrow> (Threw e, st')
         | None \<Rightarrow> mkdir_all sys dirs st')"

definition find_protos :: "sys \<Rightarrow> state \<Rightarrow> string list result \<times> state" where
  "find_protos sys st =
     (let st' = emit (Globby ''**/*.proto'' (PROTO_DIR sys)) st
      in case globby sys ''**/*.proto'' (PROTO_DIR sys) (files st') of
           Inl e \<Rightarrow> (Threw e, st')
         | Inr protoFiles \<Rightarrow> (Returned protoFiles, st'))"

text \<open>
  The part of \<open>compileProtos\<close> that runs once a protoc is resolved: the output
  directories, the list of schema files, and then (\<open>process_proto_files\<close>) the three
  stub commands and the descriptor export on that list.
\<close>

definition process_proto_files :: "sys \<Rightarrow> path \<Rightarrow> string list \<Rightarrow> state \<Rightarrow> unit result \<times> state" where
  "process_proto_files sys protoc protoFiles st =
     and_then (tsProtoc sys protoc (TS_OUT_DIR sys) protoFiles TS_PROTO_OPTIONS
                 (console_log
                    [Str (''Processing '' @ show_nat (length protoFiles) @ '' proto files from''),
                     Str (PROTO_DIR sys)] st))
       (\<lambda>_ st.
     and_then (tsProtoc sys protoc (GRPC_JS_OUT_DIR sys) protoFiles
                 (''outputServices=grpc-js'' # TS_PROTO_OPTIONS) st)
       (\<lambda>_ st.
     and_then (tsProtoc sys protoc (NICE_JS_OUT_DIR sys) protoFiles
                 (''outputServices=nice-grpc,useExactTypes=false'' # TS_PROTO_OPTIONS) st)
       (\<lambda>_ st.
     and_then (exportDescriptor sys protoc protoFiles st)
       (\<lambda>_ st.
          (Returned (),
           log_verbose sys (''TypeScript files generated in: '' @ TS_OUT_DIR sys)
             (log_verbose sys ''Protocol Buffer code generation completed successfully.'' st))))))"

definition generate :: "sys \<Rightarrow> path \<Rightarrow> state \<Rightarrow> unit result \<times> state" where
  "generate sys protoc st =
     and_then (mkdir_all sys
                 [TS_OUT_DIR sys, GRPC_JS_OUT_DIR sys, NICE_JS_OUT_DIR sys, DESCRIPTOR_OUT_DIR sys] st)
       (\<lambda>_ st.
     and_then (find_protos sys st)
       (\<lambda>protoFiles st. process_proto_files sys protoc protoFiles st))"

definition compileProtos :: "sys \<Rightarrow> state \<Rightarrow> unit result \<times> state" where
  "compileProtos sys st =
     and_then (checkAppleSiliconCompatibility sys
                 (console_log [Str ''Compiling Protocol Buffers...''] st))
       (\<lambda>_ st.
     and_then (locateProtoc sys st)
       (\<lambda>_ st.
          case RESOLVED_PROTOC st of
            None \<Rightarrow> (Returned (), st)
          | Some protoc \<Rightarrow> if protoc = [] then (Returned (), st) else generate sys protoc st))"

subsection \<open>cleanup and main\<close>

definition oldhostbridgefiles :: "path list" where
  "oldhostbridgefiles =
     [''src/hosts/vscode/workspace/methods.ts'', ''src/hosts/vscode/workspace/index.ts'',
      ''src/hosts/vscode/diff/methods.ts'', ''src/hosts/vscode/diff/index.ts'',
      ''src/hosts/vscode/env/methods.ts'', ''src/hosts/vscode/env/index.ts'',
      ''src/hosts/vscode/window/methods.ts'', ''src/hosts/vscode/window/index.ts'',
      ''src/hosts/vscode/watch/methods.ts'', ''src/hosts/vscode/watch/index.ts'',
      ''src/hosts/vscode/uri/methods.ts'', ''src/hosts/vscode/uri/index.ts'']"

definition oldprotobusfiles :: "path list" where
  "oldprotobusfiles =
     [''src/core/controller/account/index.ts'', ''src/core/controller/account/methods.ts'',
      ''src/core/controller/browser/index.ts'', ''src/core/controller/browser/methods.ts'',
      ''src/core/controller/checkpoints/index.ts'', ''src/core/controller/checkpoints/methods.ts'',
      ''src/core/controller/file/index.ts'', ''src/core/controller/file/methods.ts'',
      ''src/core/controller/mcp/index.ts'', ''src/core/controller/mcp/methods.ts'',
      ''src/core/controller/models/index.ts'', ''src/core/controller/models/methods.ts'',
      ''src/core/controller/slash/index.ts'', ''src/core/controller/slash/methods.ts'',
      ''src/core/controller/state/index.ts'', ''src/core/controller/state/methods.ts'',
      ''src/core/controller/task/index.ts'', ''src/core/controller/task/methods.ts'',
      ''src/core/controller/ui/index.ts'', ''src/core/controller/ui/methods.ts'',
      ''src/core/controller/web/index.ts'', ''src/core/controller/web/methods.ts'']"

text \<open>The paths \<open>cleanup\<close> passes to \<open>rmrf\<close>, in order.\<close>

definition cleanup_paths :: "sys \<Rightarrow> path list" where
  "cleanup_paths sys =
     [TS_OUT_DIR sys, ''src/generated'',
      ''src/standalone/services/host-grpc-client.ts'', ''src/standalone/server-setup.ts'',
      ''src/hosts/vscode/host-grpc-service-config.ts'',
      ''src/core/controller/grpc-service-config.ts'']
     @ oldhostbridgefiles @ oldprotobusfiles"

definition cleanup :: "sys \<Rightarrow> state \<Rightarrow> state" where
  "cleanup sys st =
     foldl (\<lambda>st p. rmrf sys p st)
       (log_verbose sys ''Cleaning up existing generated TypeScript files...'' st)
       (cleanup_paths sys)"

text \<open>
  The calls of the two imported generators: each is an \<open>async\<close> function of another
  module, taken from \<open>sys\<close>.
\<close>

definition call_generateProtoBusSetup :: "sys \<Rightarrow> state \<Rightarrow> unit result \<times> state" where
  "call_generateProtoBusSetup sys st =
     (let st' = emit GenerateProtoBusSetup st
      in case generateProtoBusSetup sys (files st') of (r, fs') \<Rightarrow> (r, st'\<lparr>files := fs'\<rparr>))"

definition call_generateHostBridgeClient :: "sys \<Rightarrow> state \<Rightarrow> unit result \<times> state" where
  "call_generateHostBridgeClient sys st =
     (let st' = emit GenerateHostBridgeClient st
      in case generateHostBridgeClient sys (files st') of (r, fs') \<Rightarrow> (r, st'\<lparr>files := fs'\<rparr>))"

definition main :: "sys \<Rightarrow> state \<Rightarrow> unit result \<times> state" where
  "main sys st =
     (if env sys ''SKIP_PROTOS'' = Some ''1'' then
        (Returned (),
         console_log [Str ''[build-proto] Skipping proto generation due to SKIP_PROTOS=1''] st)
      else
        and_then (compileProtos sys (cleanup sys st))
          (\<lambda>_ st.
        and_then (call_generateProtoBusSetup sys st)
          (\<lambda>_ st. call_generateHostBridgeClient sys st)))"

text \<open>
  The last statement of the module: \<open>main().catch(...)\<close> reports a rejection and exits
  with 1. A process that is left to end by itself exits with 0.
\<close>

definition run :: "sys \<Rightarrow> state \<Rightarrow> unit result \<times> state" where
  "run sys st =
     (case main sys st of
        (Threw error, st') \<Rightarrow> (Exit 1, console_error [Str ''Error:'', Err error] st')
      | other \<Rightarrow> other)"

definition exit_code :: "unit result \<times> state \<Rightarrow> nat" where
  "exit_code r = (case fst r of Exit n \<Rightarrow> n | _ \<Rightarrow> 0)"

text \<open>
  The process \<open>node scripts/build-proto.mjs\<close>: the module is loaded, and \<open>main\<close> is
  called when the loading came to its last statement. An error thrown while the module
  loads is caught by nothing: Node reports it and the process ends with code 1.
\<close>

definition build_proto :: "sys \<Rightarrow> state \<Rightarrow> unit result \<times> state" where
  "build_proto sys st =
     (case load_module sys of
        Inl error \<Rightarrow> (Exit 1, emit (Uncaught error) st)
      | Inr _ \<Rightarrow> run sys st)"

text \<open>A new process: nothing done yet, no protoc resolved.\<close>

definition fresh :: "fs \<Rightarrow> state" where
  "fresh fs0 = \<lparr>files = fs0, events = [], RESOLVED_PROTOC = None, RESOLVED_PROTOC_VERSION = None\<rparr>"

text \<open>
  The commands a run passed to \<open>execSync\<close>, in order; and all its calls into the world
  outside, in order: its events without the lines it printed.
\<close>

fun execs :: "event list \<Rightarrow> string list" where
  "execs [] = []"
| "execs (ExecSync command # es) = command # execs es"
| "execs (e # es) = execs es"

fun calls :: "event list \<Rightarrow> event list" where
  "calls [] = []"
| "calls (ConsoleLog _ # es) = calls es"
| "calls (ConsoleError _ # es) = calls es"
| "calls (Uncaught _ # es) = calls es"
| "calls (e # es) = e # calls es"

text \<open>
  Running commands one after the other, each on the file tree the one before it left,
  up to the first that fails: the commands that were run, the failed command with the
  message of its error (if one failed), and the file tree at the end.
\<close>

fun exec_all :: "sys \<Rightarrow> string list \<Rightarrow> fs \<Rightarrow> string list \<times> (string \<times> string) option \<times> fs" where
  "exec_all sys [] fs = ([], None, fs)"
| "exec_all sys (c # cs) fs =
     (case execSync sys c fs of
        (Inl message, fs') \<Rightarrow> ([c], Some (c, message), fs')
      | (Inr _, fs') \<Rightarrow>
          (case exec_all sys cs fs' of (executed, failed, fs'') \<Rightarrow> (c # executed, failed, fs'')))"

subsection \<open>Two small worlds to run the script in\<close>

text \<open>
  A Linux checkout at \<open>/w\<close> with one schema file. The bundled protoc answers
  \<open>--version\<close>; there is no protoc on the \<open>PATH\<close>. Each generation command writes one
  file. With \<open>broken\<close> the grpc-js command writes half of its file and fails.
\<close>

definition demo_execSync :: "bool \<Rightarrow> string \<Rightarrow> fs \<Rightarrow> (string + string) \<times> fs" where
  "demo_execSync broken command fs =
     (if includes_str command ''--version'' then (Inr (''libprotoc 29.3'' @ [newline]), fs)
      else if includes_str command ''grpc-js'' then
        (if broken
         then (Inl (''Command failed: '' @ command),
               fs(''/w/src/generated/grpc-js/a.ts'' \<mapsto> ''half a stub''))
         else (Inr [], fs(''/w/src/generated/grpc-js/a.ts'' \<mapsto> ''grpc-js stub'')))
      else if includes_str command ''nice-grpc'' then
        (Inr [], fs(''/w/src/generated/nice-grpc/a.ts'' \<mapsto> ''nice-grpc stub''))
      else if includes_str command ''--ts_proto_out='' then
        (Inr [], fs(''/w/src/shared/proto/a.ts'' \<mapsto> ''generic stub''))
      else if includes_str command ''--descriptor_set_out='' then
        (Inr [], fs(''/w/dist-standalone/proto/descriptor_set.pb'' \<mapsto> ''descriptor''))
      else (Inl (''Command failed: '' @ command), fs))"

definition demo_sys :: "(string \<rightharpoonup> string) \<Rightarrow> bool \<Rightarrow> sys" where
  "demo_sys e broken =
     \<lparr>env = e, argv = [], platform = ''linux'', arch = ''x64'', cwd = ''/w'',
      import_error = None,
      resolve_grpc_tools = Some ''/w/node_modules/grpc-tools/index.js'',
      resolve_ts_proto_plugin = Inr ''/w/node_modules/ts-proto/protoc-gen-ts_proto'',
      execSync = demo_execSync broken,
      mkdir = (\<lambda>_ _. None),
      globby = (\<lambda>_ _ _. Inr [''a.proto'']),
      generateProtoBusSetup = (\<lambda>fs. (Returned (), fs)),
      generateHostBridgeClient = (\<lambda>fs. (Returned (), fs))\<rparr>"

text \<open>The same checkout where the ts-proto package is not installed.\<close>

definition no_plugin_sys :: "(string \<rightharpoonup> string) \<Rightarrow> sys" where
  "no_plugin_sys e =
     (demo_sys e False)
       \<lparr>resolve_ts_proto_plugin :=
          Inl (JsError ''Cannot find module ts-proto/protoc-gen-ts_proto'')\<rparr>"

text \<open>The same checkout on a machine where no command can be started.\<close>

definition bare_sys :: "(string \<rightharpoonup> string) \<Rightarrow> sys" where
  "bare_sys e =
     \<lparr>env = e, argv = [], platform = ''linux'', arch = ''x64'', cwd = ''/w'',
      import_error = None,
      resolve_grpc_tools = Some ''/w/node_modules/grpc-tools/index.js'',
      resolve_ts_proto_plugin = Inr ''/w/node_modules/ts-proto/protoc-gen-ts_proto'',
      execSync = (\<lambda>_ fs. (Inl ''spawnSync /bin/sh ENOENT'', fs)),
      mkdir = (\<lambda>_ _. None),
      globby = (\<lambda>_ _ _. Inr [''a.proto'']),
      generateProtoBusSetup = (\<lambda>fs. (Returned (), fs)),
      generateHostBridgeClient = (\<lambda>fs. (Returned (), fs))\<rparr>"

definition demo_fs :: fs where
  "demo_fs = [''/w/proto/a.proto'' \<mapsto> ''syntax'',
              ''/w/src/shared/proto/gone.ts'' \<mapsto> ''stale'',
              ''/w/dist-standalone/proto/descriptor_set.pb'' \<mapsto> ''previous'']"

subsection \<open>Basic facts about the model\<close>

lemma and_then_simps [simp]:
  "and_then (Returned x, st) f = f x st"
  "and_then (Threw e, st) f = (Threw e, st)"
  "and_then (Exit n, st) f = (Exit n, st)"
  by (simp_all add: and_then_def)

lemma emit_fields [simp]:
  "files (emit e st) = files st"
  "events (emit e st) = events st @ [e]"
  "RESOLVED_PROTOC (emit e st) = RESOLVED_PROTOC st"
  "RESOLVED_PROTOC_VERSION (emit e st) = RESOLVED_PROTOC_VERSION st"
  by (simp_all add: emit_def)

lemma console_fields [simp]:
  "files (console_log a st) = files st"
  "files (console_error a st) = files st"
  "RESOLVED_PROTOC (console_log a st) = RESOLVED_PROTOC st"
  "RESOLVED_PROTOC (console_error a st) = RESOLVED_PROTOC st"
  "events (console_log a st) = events st @ [ConsoleLog a]"
  "events (console_error a st) = events st @ [ConsoleError a]"
  by (simp_all add: console_log_def console_error_def)

lemma execs_append [simp]: "execs (es @ es') = execs es @ execs es'"
  by (induction es rule: execs.induct) simp_all

lemma log_verbose_fields [simp]:
  "files (log_verbose sys s st) = files st"
  "RESOLVED_PROTOC (log_verbose sys s st) = RESOLVED_PROTOC st"
  "execs (events (log_verbose sys s st)) = execs (events st)"
  by (simp_all add: log_verbose_def)

lemma exec_resolved: "exec sys c st = (r, st') \<Longrightarrow> RESOLVED_PROTOC st' = RESOLVED_PROTOC st"
  by (auto simp: exec_def split: prod.splits sum.splits)

lemma exec_execs: "exec sys c st = (r, st') \<Longrightarrow> execs (events st') = execs (events st) @ [c]"
  by (auto simp: exec_def split: prod.splits sum.splits)

lemma rmrf_resolved [simp]: "RESOLVED_PROTOC (rmrf sys p st) = RESOLVED_PROTOC st"
  by (simp add: rmrf_def)

lemma cleanup_resolved [simp]: "RESOLVED_PROTOC (cleanup sys st) = RESOLVED_PROTOC st"
proof -
  have "RESOLVED_PROTOC (foldl (\<lambda>st p. rmrf sys p st) s ps) = RESOLVED_PROTOC s" for s ps
    by (induction ps arbitrary: s) simp_all
  then show ?thesis by (simp add: cleanup_def)
qed

lemma checkApple_resolved:
  "checkAppleSiliconCompatibility sys st = (r, st') \<Longrightarrow> RESOLVED_PROTOC st' = RESOLVED_PROTOC st"
  by (auto simp: checkAppleSiliconCompatibility_def rosetta_messages_def
      split: if_splits prod.splits sum.splits dest: exec_resolved)

lemma protoc_candidates_resolved:
  "protoc_candidates sys st = (cs, st') \<Longrightarrow> RESOLVED_PROTOC st' = RESOLVED_PROTOC st"
  by (auto simp: protoc_candidates_def Let_def
      split: prod.splits sum.splits option.splits dest: exec_resolved)

lemma tryProtocVersion_resolved:
  "tryProtocVersion sys c st = (r, st') \<Longrightarrow> RESOLVED_PROTOC st' = RESOLVED_PROTOC st"
  by (auto simp: tryProtocVersion_def Let_def
      split: prod.splits sum.splits if_splits dest: exec_resolved)

lemma try_candidates_none:
  "try_candidates sys cs st = (False, st') \<Longrightarrow> RESOLVED_PROTOC st' = RESOLVED_PROTOC st"
proof (induction cs arbitrary: st)
  case Nil
  then show ?case by simp
next
  case (Cons c cs)
  obtain r st1 where t: "tryProtocVersion sys c st = (r, st1)"
    by (cases "tryProtocVersion sys c st")
  show ?case
  proof (cases r)
    case (OkVersion v)
    then show ?thesis using Cons.prems t by simp
  next
    case (NotOk e)
    then have "try_candidates sys cs
        (log_verbose sys (''[build-proto] Failed protoc candidate '' @ c @ '': '' @ error_text e) st1)
        = (False, st')"
      using Cons.prems t by simp
    from Cons.IH [OF this] show ?thesis using tryProtocVersion_resolved [OF t] by simp
  qed
qed

section \<open>Properties of the sanitisation helpers\<close>

lemma leading_pass_unmatched:
  "leading_pass res s m = (r, False) \<Longrightarrow> r = s \<and> \<not> m"
  by (induction res arbitrary: s m) (auto simp: Let_def split: if_splits)

lemma strip_loop_fixed:
  "leading_pass LEADING_PATTERNS (strip_loop s) False = (strip_loop s, False)"
proof (induction s rule: strip_loop.induct)
  case (1 result)
  obtain r m where run: "leading_pass LEADING_PATTERNS result False = (r, m)"
    by (cases "leading_pass LEADING_PATTERNS result False")
  show ?case
  proof (cases m)
    case True
    then have "strip_loop result = strip_loop r" using run by (simp add: strip_loop.simps)
    moreover have "leading_pass LEADING_PATTERNS (strip_loop r) False = (strip_loop r, False)"
      using "1" run True by simp
    ultimately show ?thesis by simp
  next
    case False
    then have r: "r = result"
      using leading_pass_unmatched [of LEADING_PATTERNS result False r] run by simp
    have "strip_loop result = result" using run False r by (simp add: strip_loop.simps)
    then show ?thesis using run False r by simp
  qed
qed

lemma replace_scan_length: "length (replace_scan re k s) \<le> length s"
  by (induction re k s rule: replace_scan.induct) (auto split: option.splits)

lemma replace_scan_unmatched: "\<not> occurs re s \<Longrightarrow> replace_scan re 0 s = s"
  by (induction s) auto

lemma replace_scan_shorter:
  "shortening re \<Longrightarrow> occurs re s \<Longrightarrow> length (replace_scan re 0 s) < length s"
proof (induction s)
  case Nil
  then obtain y where "re [] = Some y" by auto
  then have "length y < length ([] :: string)" using Nil.prems(1) unfolding shortening_def by blast
  then show ?case by simp
next
  case (Cons c cs)
  show ?case
  proof (cases "re (c # cs)")
    case None
    then show ?thesis using Cons by simp
  next
    case (Some r)
    then have "length r \<le> length cs" using Cons.prems(1) by (fastforce simp: shortening_def)
    then show ?thesis
      using Some replace_scan_length [of re "length cs - length r" cs] by simp
  qed
qed

lemma replace_all_length: "length (replace_all re s) \<le> length s"
  by (simp add: replace_all_def replace_scan_length)

lemma replace_all_fixed:
  "shortening re \<Longrightarrow> (replace_all re s = s) = (\<not> occurs re s)"
  using replace_scan_shorter [of re s] replace_scan_unmatched [of re s]
  by (auto simp: replace_all_def)

lemma replace_all_same_length:
  "shortening re \<Longrightarrow> length (replace_all re s) = length s \<Longrightarrow> replace_all re s = s \<and> \<not> occurs re s"
  using replace_scan_shorter [of re s] replace_scan_unmatched [of re s]
  by (auto simp: replace_all_def)

lemma inline_shortening:
  "shortening re_thinking_open" "shortening re_thinking_close" "shortening re_im_start"
  "shortening re_im_end" "shortening channel_token"
proof -
  show "shortening re_thinking_open"
    by (auto simp: shortening_def re_thinking_open_def split: option.splits list.splits if_splits
        dest!: lit_length)
  show "shortening re_thinking_close"
    by (auto simp: shortening_def re_thinking_close_def split: option.splits list.splits if_splits
        dest!: lit_length)
  show "shortening re_im_end"
    by (auto simp: shortening_def re_im_end_def dest!: lit_i_length)
  show "shortening channel_token"
    by (auto simp: shortening_def dest: channel_token_length)
  show "shortening re_im_start"
  proof (unfold shortening_def, intro allI impI)
    fix s r assume a: "re_im_start s = Some r"
    then obtain t where t: "lit_i ''<|im_start|>'' s = Some t"
      and r: "r = dropWhile is_space (dropWhile is_word (dropWhile is_space t))"
      by (auto simp: re_im_start_def Let_def split: option.splits list.splits if_splits)
    have "length r \<le> length t"
      unfolding r by (meson length_dropWhile_le le_trans)
    then show "length r < length s" using lit_i_length [OF t] by simp
  qed
qed

lemma strip_loop_length: "length (strip_loop s) \<le> length s"
proof (induction s rule: strip_loop.induct)
  case (1 result)
  obtain r m where run: "leading_pass LEADING_PATTERNS result False = (r, m)"
    by (cases "leading_pass LEADING_PATTERNS result False")
  have le: "length r \<le> length result"
    using leading_pass_length [OF LEADING_PATTERNS_shortening run] by simp
  show ?case
  proof (cases m)
    case True
    then have "length (strip_loop r) \<le> length r" using "1" run by simp
    then show ?thesis using run True le by (simp add: strip_loop.simps)
  next
    case False
    then show ?thesis using run le by (simp add: strip_loop.simps)
  qed
qed

lemma strip_loop_same_length:
  assumes "length (strip_loop s) = length s"
  shows "strip_loop s = s"
proof -
  obtain r m where run: "leading_pass LEADING_PATTERNS s False = (r, m)"
    by (cases "leading_pass LEADING_PATTERNS s False")
  show ?thesis
  proof (cases m)
    case True
    then have "length r < length s"
      using leading_pass_length [OF LEADING_PATTERNS_shortening run] by simp
    moreover have "strip_loop s = strip_loop r" using run True by (simp add: strip_loop.simps)
    ultimately show ?thesis using strip_loop_length [of r] assms by simp
  next
    case False
    then show ?thesis
      using run leading_pass_unmatched [of LEADING_PATTERNS s False r]
      by (simp add: strip_loop.simps)
  qed
qed

lemma replace_first_fixed:
  "shortening re \<Longrightarrow> (replace_first re s = s) = (re s = None)"
  by (auto simp: replace_first_def shortening_def split: option.splits)

lemma strip_loop_fixed_iff:
  "(strip_loop t = t) =
     (re_leading_channel t = None \<and> re_leading_header t = None \<and> re_leading_prefix t = None)"
proof
  assume fx: "strip_loop t = t"
  have sh: "shortening re_leading_channel" "shortening re_leading_header" "shortening re_leading_prefix"
    using LEADING_PATTERNS_shortening by (simp_all add: LEADING_PATTERNS_def)
  have "leading_pass LEADING_PATTERNS t False = (t, False)"
    using strip_loop_fixed [of t] fx by simp
  then have a: "replace_first re_leading_channel t = t"
    and b: "replace_first re_leading_header (replace_first re_leading_channel t)
              = replace_first re_leading_channel t"
    and c: "replace_first re_leading_prefix
              (replace_first re_leading_header (replace_first re_leading_channel t))
              = replace_first re_leading_header (replace_first re_leading_channel t)"
    by (auto simp: LEADING_PATTERNS_def Let_def split: if_splits)
  have "re_leading_channel t = None" using a sh(1) by (simp add: replace_first_fixed)
  moreover have "re_leading_header t = None" using a b sh(2) by (simp add: replace_first_fixed)
  moreover have "re_leading_prefix t = None" using a b c sh(3) by (simp add: replace_first_fixed)
  ultimately show "re_leading_channel t = None \<and> re_leading_header t = None \<and> re_leading_prefix t = None"
    by simp
next
  assume "re_leading_channel t = None \<and> re_leading_header t = None \<and> re_leading_prefix t = None"
  then have "leading_pass LEADING_PATTERNS t False = (t, False)"
    by (simp add: LEADING_PATTERNS_def replace_first_def)
  then show "strip_loop t = t" by (simp add: strip_loop.simps)
qed

lemma sanitize_fixed_iff: "(sanitizeAssistantText t = t) = artifact_free t"
proof (cases "t = []")
  case True
  then show ?thesis
    by (simp add: sanitizeAssistantText_def artifact_free_def re_leading_channel_def
        channel_token_def re_leading_header_def re_leading_prefix_def re_thinking_open_def
        re_thinking_close_def re_im_start_def re_im_end_def)
next
  case False
  define x1 where "x1 = strip_loop t"
  define x2 where "x2 = replace_all re_thinking_open x1"
  define x3 where "x3 = replace_all re_thinking_close x2"
  define x4 where "x4 = replace_all re_im_start x3"
  define x5 where "x5 = replace_all re_im_end x4"
  define x6 where "x6 = replace_all channel_token x5"
  have san: "sanitizeAssistantText t = x6"
    using False
    by (simp add: sanitizeAssistantText_def stripInlineChatMl_def stripThinkingTags_def
        stripLeadingArtifacts_def x1_def x2_def x3_def x4_def x5_def x6_def)
  have le: "length x1 \<le> length t" "length x2 \<le> length x1" "length x3 \<le> length x2"
    "length x4 \<le> length x3" "length x5 \<le> length x4" "length x6 \<le> length x5"
    by (simp_all add: x1_def x2_def x3_def x4_def x5_def x6_def strip_loop_length replace_all_length)
  show ?thesis
  proof
    assume "sanitizeAssistantText t = t"
    then have "length x6 = length t" using san by simp
    then have eq: "length x1 = length t" "length x2 = length x1" "length x3 = length x2"
      "length x4 = length x3" "length x5 = length x4" "length x6 = length x5"
      using le by simp_all
    have 1: "x1 = t" using strip_loop_same_length eq(1) by (simp add: x1_def)
    have 2: "x2 = t \<and> \<not> occurs re_thinking_open t"
      using replace_all_same_length [OF inline_shortening(1), of x1] eq(2) 1 by (simp add: x2_def)
    have 3: "x3 = t \<and> \<not> occurs re_thinking_close t"
      using replace_all_same_length [OF inline_shortening(2), of x2] eq(3) 2 by (simp add: x3_def)
    have 4: "x4 = t \<and> \<not> occurs re_im_start t"
      using replace_all_same_length [OF inline_shortening(3), of x3] eq(4) 3 by (simp add: x4_def)
    have 5: "x5 = t \<and> \<not> occurs re_im_end t"
      using replace_all_same_length [OF inline_shortening(4), of x4] eq(5) 4 by (simp add: x5_def)
    have 6: "x6 = t \<and> \<not> occurs channel_token t"
      using replace_all_same_length [OF inline_shortening(5), of x5] eq(6) 5 by (simp add: x6_def)
    have "strip_loop t = t" using 1 by (simp add: x1_def)
    then show "artifact_free t"
      using 2 3 4 5 6 by (simp add: artifact_free_def strip_loop_fixed_iff)
  next
    assume a: "artifact_free t"
    then have "x1 = t" by (simp add: x1_def artifact_free_def strip_loop_fixed_iff)
    moreover have "replace_all re_thinking_open t = t" "replace_all re_thinking_close t = t"
      "replace_all re_im_start t = t" "replace_all re_im_end t = t"
      "replace_all channel_token t = t"
      using a by (simp_all add: artifact_free_def replace_all_def replace_scan_unmatched)
    ultimately show "sanitizeAssistantText t = t"
      using san by (simp add: x2_def x3_def x4_def x5_def x6_def)
  qed
qed

text \<open>
  C8. For a falsy string input (the empty string is the only falsy string),
  \<open>sanitizeAssistantText\<close> and \<open>sanitizeFileContent\<close> return the input unchanged: the
  guard \<open>if (!raw) return raw\<close> comes before any stripping or extraction.
\<close>

theorem sanitize_falsy_unchanged:
  "raw = [] \<Longrightarrow>
     sanitizeAssistantText raw = raw \<and> sanitizeFileContent raw expectedLanguage = raw"
  by (simp add: sanitizeAssistantText_def sanitizeFileContent_def)

theorem sanitize_falsy_unchanged_witness:
  "sanitizeAssistantText [] = [] \<and> sanitizeFileContent [] (Some ''html'') = []"
  using sanitize_falsy_unchanged [of "[]" "Some ''html''"] by simp

text \<open>
  C9. A text with a \<open><!doctype\<close> or \<open><html\<close> marker before a \<open></html>\<close> marker should
  come back as the trimmed HTML document. \<open>extractHtmlDocument\<close> starts the span at
  \<open>Math.max\<close> of the two \<open>indexOf\<close> results, the later marker when both are found: a
  document that opens with its doctype loses it, and a text whose markers stand on both
  sides of \<open></html>\<close> is not extracted at all.
\<close>

theorem sanitizeFileContent_doctype_dropped:
  "sanitizeFileContent ''<!DOCTYPE html><html><body>hi</body></html>'' None
     = ''<html><body>hi</body></html>'' \<and>
   sanitizeFileContent ''<html></html><!doctype'' None = ''<html></html><!doctype''"
  by code_simp

text \<open>
  C10, as stated: \<open>sanitizeAssistantText\<close> applied twice equals \<open>sanitizeAssistantText\<close>
  applied once. It fails: the inline passes run once over the text, and taking a token
  out can join what stood around it into a new token.
\<close>

theorem sanitizeAssistantText_not_idempotent:
  "sanitizeAssistantText (sanitizeAssistantText ''<|user<|user|>|>'')
     \<noteq> sanitizeAssistantText ''<|user<|user|>|>''"
  by code_simp

text \<open>
  C10, amended: \<open>sanitizeAssistantText\<close> applied to its own result changes nothing
  exactly when no pattern of the sanitiser matches in that result: none of the three
  leading patterns at its start, and no \<open><thinking>\<close> or \<open></thinking>\<close> tag, \<open><|im_start|>\<close>
  header, \<open><|im_end|>\<close> or channel token anywhere in it. In general the texts that
  \<open>sanitizeAssistantText\<close> leaves unchanged are the texts without such a match. The first
  stage, \<open>stripLeadingArtifacts\<close>, is idempotent on every string, since its loop runs
  until a round removes nothing.
\<close>

theorem sanitizeAssistantText_idempotent_iff_artifact_free:
  "(sanitizeAssistantText (sanitizeAssistantText s) = sanitizeAssistantText s)
     = artifact_free (sanitizeAssistantText s)
   \<and> (sanitizeAssistantText t = t) = artifact_free t
   \<and> stripLeadingArtifacts (stripLeadingArtifacts s) = stripLeadingArtifacts s"
proof -
  have "strip_loop (strip_loop s) = strip_loop s"
    by (subst strip_loop.simps) (simp add: strip_loop_fixed)
  then show ?thesis by (simp add: stripLeadingArtifacts_def sanitize_fixed_iff)
qed

theorem sanitizeAssistantText_idempotent_iff_artifact_free_witness:
  "artifact_free (sanitizeAssistantText ''<|user|> analysis> <thinking>hello</thinking><|im_end|>'')
   \<and> sanitizeAssistantText (sanitizeAssistantText ''<|user|> analysis> <thinking>hello</thinking><|im_end|>'') = ''hello''
   \<and> \<not> artifact_free (sanitizeAssistantText ''<thinking>analysis> x'')
   \<and> sanitizeAssistantText (sanitizeAssistantText ''<thinking>analysis> x'')
       \<noteq> sanitizeAssistantText ''<thinking>analysis> x''
   \<and> sanitizeAssistantText ''if a < b then x'' = ''if a < b then x''"
proof -
  have 1: "sanitizeAssistantText ''<|user|> analysis> <thinking>hello</thinking><|im_end|>'' = ''hello''"
    by code_simp
  have 2: "artifact_free ''hello''" by code_simp
  have 3: "sanitizeAssistantText ''<thinking>analysis> x'' = ''analysis> x''"
    by code_simp
  have 4: "\<not> artifact_free ''analysis> x''" by code_simp
  have 5: "artifact_free ''if a < b then x''" by code_simp
  show ?thesis
    using sanitizeAssistantText_idempotent_iff_artifact_free [of "''<|user|> analysis> <thinking>hello</thinking><|im_end|>''" "''if a < b then x''"]
      sanitizeAssistantText_idempotent_iff_artifact_free [of "''<thinking>analysis> x''" "''hello''"]
      1 2 3 4 5
    by simp
qed

section \<open>Properties of the build script\<close>

subsection \<open>The calls of each step\<close>

lemma calls_append [simp]: "calls (es @ es') = calls es @ calls es'"
  by (induction es rule: calls.induct) simp_all

lemma calls_console [simp]:
  "calls (events (console_log a st)) = calls (events st)"
  "calls (events (console_error a st)) = calls (events st)"
  "calls (events (log_verbose sys s st)) = calls (events st)"
  by (simp_all add: log_verbose_def)

lemma execs_calls [simp]: "execs (calls es) = execs es"
  by (induction es rule: calls.induct) simp_all

lemma execs_map [simp]:
  "execs (map ExecSync cs) = cs" "execs (map Rmrf ps) = []" "execs (map Mkdir ds) = []"
  by (induction cs, simp_all) (induction ps, simp_all, induction ds, simp_all)

lemma exec_calls:
  "exec sys c st = (r, st') \<Longrightarrow>
     calls (events st') = calls (events st) @ [ExecSync c]
     \<and> files st' = snd (execSync sys c (files st))"
  by (auto simp: exec_def split: prod.splits sum.splits)

lemma rmrf_calls [simp]: "calls (events (rmrf sys p st)) = calls (events st) @ [Rmrf p]"
  by (simp add: rmrf_def)

lemma cleanup_calls:
  "calls (events (cleanup sys st)) = calls (events st) @ map Rmrf (cleanup_paths sys)"
proof -
  have "calls (events (foldl (\<lambda>st p. rmrf sys p st) s ps)) = calls (events s) @ map Rmrf ps"
    for s ps
    by (induction ps arbitrary: s) simp_all
  then show ?thesis by (simp add: cleanup_def)
qed

text \<open>The steps before the generation call nothing but \<open>execSync\<close>.\<close>

lemma checkApple_calls:
  "checkAppleSiliconCompatibility sys st = (r, st') \<Longrightarrow>
     \<exists>cs. calls (events st') = calls (events st) @ map ExecSync cs"
proof -
  assume a: "checkAppleSiliconCompatibility sys st = (r, st')"
  show ?thesis
  proof (cases "platform sys = ''darwin'' \<and> arch sys = ''arm64''")
    case False
    then have "st' = st" using a by (auto simp: checkAppleSiliconCompatibility_def split: if_splits)
    then have "calls (events st') = calls (events st) @ map ExecSync []" by simp
    then show ?thesis by blast
  next
    case True
    obtain x s where e: "exec sys (''/usr/bin/pgrep oahd || echo '' @ quoted ''NOT_INSTALLED'') st = (x, s)"
      by (cases "exec sys (''/usr/bin/pgrep oahd || echo '' @ quoted ''NOT_INSTALLED'') st")
    have "calls (events st') = calls (events s)"
      using a e True
      by (auto simp: checkAppleSiliconCompatibility_def rosetta_messages_def
          split: sum.splits if_splits)
    then have "calls (events st') = calls (events st)
        @ map ExecSync [''/usr/bin/pgrep oahd || echo '' @ quoted ''NOT_INSTALLED'']"
      using exec_calls [OF e] by simp
    then show ?thesis by blast
  qed
qed

lemma protoc_candidates_calls:
  "protoc_candidates sys st = (cs, st') \<Longrightarrow>
     \<exists>cs. calls (events st') = calls (events st) @ map ExecSync cs"
proof -
  assume a: "protoc_candidates sys st = (cs, st')"
  let ?w = "if platform sys = ''win32'' then ''where protoc'' else ''which protoc''"
  obtain x s where e: "exec sys ?w st = (x, s)" by (cases "exec sys ?w st")
  have "st' = s"
    using a e by (auto simp: protoc_candidates_def Let_def split: sum.splits option.splits)
  then have "calls (events st') = calls (events st) @ map ExecSync [?w]"
    using exec_calls [OF e] by simp
  then show ?thesis by blast
qed

lemma tryProtocVersion_calls:
  "tryProtocVersion sys c st = (r, st') \<Longrightarrow>
     calls (events st') = calls (events st) @ map ExecSync [quoted c @ '' --version'']"
proof -
  assume a: "tryProtocVersion sys c st = (r, st')"
  obtain x s where e: "exec sys (quoted c @ '' --version'') st = (x, s)"
    by (cases "exec sys (quoted c @ '' --version'') st")
  have "st' = s"
    using a e by (auto simp: tryProtocVersion_def Let_def split: sum.splits if_splits)
  then show ?thesis using exec_calls [OF e] by simp
qed

lemma try_candidates_calls:
  "try_candidates sys cs st = (r, st') \<Longrightarrow>
     \<exists>xs. calls (events st') = calls (events st) @ map ExecSync xs"
proof (induction cs arbitrary: st)
  case Nil
  then have "calls (events st') = calls (events st) @ map ExecSync []" by simp
  then show ?case by blast
next
  case (Cons c cs)
  obtain v s where t: "tryProtocVersion sys c st = (v, s)"
    by (cases "tryProtocVersion sys c st")
  note c1 = tryProtocVersion_calls [OF t]
  show ?case
  proof (cases v)
    case (OkVersion version)
    then have "calls (events st') = calls (events s)" using Cons.prems t by auto
    then show ?thesis using c1 by metis
  next
    case (NotOk e)
    then have "try_candidates sys cs
        (log_verbose sys (''[build-proto] Failed protoc candidate '' @ c @ '': '' @ error_text e) s)
        = (r, st')"
      using Cons.prems t by simp
    from Cons.IH [OF this] obtain xs where
      "calls (events st') = calls (events s) @ map ExecSync xs" by auto
    then have "calls (events st') = calls (events st) @ map ExecSync ((quoted c @ '' --version'') # xs)"
      using c1 by simp
    then show ?thesis by blast
  qed
qed

lemma locateProtoc_calls:
  "locateProtoc sys st = (r, st') \<Longrightarrow>
     \<exists>cs. calls (events st') = calls (events st) @ map ExecSync cs"
proof -
  assume a: "locateProtoc sys st = (r, st')"
  obtain cands s1 where c: "protoc_candidates sys st = (cands, s1)"
    by (cases "protoc_candidates sys st")
  obtain b s2 where t: "try_candidates sys cands s1 = (b, s2)"
    by (cases "try_candidates sys cands s1")
  from protoc_candidates_calls [OF c] obtain xs where
    1: "calls (events s1) = calls (events st) @ map ExecSync xs" by blast
  from try_candidates_calls [OF t] obtain ys where
    2: "calls (events s2) = calls (events s1) @ map ExecSync ys" by blast
  have "calls (events st') = calls (events s2)"
    using a c t
    by (cases b) (auto simp: locateProtoc_def no_protoc_messages_def Let_def split: if_splits)
  then have "calls (events st') = calls (events st) @ map ExecSync (xs @ ys)"
    using 1 2 by simp
  then show ?thesis by blast
qed

lemma mkdir_all_Returned:
  "mkdir_all sys ds st = (Returned (), st') \<Longrightarrow>
     calls (events st') = calls (events st) @ map Mkdir ds
     \<and> files st' = files st \<and> RESOLVED_PROTOC st' = RESOLVED_PROTOC st
     \<and> (\<forall>d \<in> set ds. mkdir sys d (files st) = None)"
proof (induction ds arbitrary: st)
  case Nil
  then show ?case by simp
next
  case (Cons a ds)
  have m: "mkdir sys a (files st) = None"
    and rest: "mkdir_all sys ds (emit (Mkdir a) st) = (Returned (), st')"
    using Cons.prems by (auto simp: Let_def split: option.splits)
  from Cons.IH [OF rest] show ?case using m by simp
qed

lemma find_protos_Returned:
  "find_protos sys st = (Returned protoFiles, st') \<Longrightarrow>
     calls (events st') = calls (events st) @ [Globby ''**/*.proto'' (PROTO_DIR sys)]
     \<and> files st' = files st \<and> RESOLVED_PROTOC st' = RESOLVED_PROTOC st
     \<and> globby sys ''**/*.proto'' (PROTO_DIR sys) (files st) = Inr protoFiles"
  by (auto simp: find_protos_def Let_def split: sum.splits)

lemma and_then_Returned:
  "and_then m f = (Returned y, st') \<Longrightarrow> \<exists>x st1. m = (Returned x, st1) \<and> f x st1 = (Returned y, st')"
  by (cases m) (auto simp: and_then_def split: result.splits)

text \<open>
  \<open>tsProtoc\<close> and the descriptor export are the same \<open>try\<close> around \<open>execSync\<close>: what the
  step does is decided by what \<open>execSync\<close> gives for its command.
\<close>

definition guarded_exec :: "sys \<Rightarrow> string \<Rightarrow> string \<Rightarrow> state \<Rightarrow> unit result \<times> state" where
  "guarded_exec sys command label st =
     (case execSync sys command (files st) of
        (Inr _, fs') \<Rightarrow> (Returned (), emit (ExecSync command) (st\<lparr>files := fs'\<rparr>))
      | (Inl message, fs') \<Rightarrow>
          (Exit 1,
           console_error [Str label, Err (ExecError command message)]
             (emit (ExecSync command) (st\<lparr>files := fs'\<rparr>))))"

lemma tsProtoc_guarded:
  "tsProtoc sys p d pf opts st =
     guarded_exec sys (tsProtoc_command sys p d pf opts)
       ''Error generating TypeScript for proto files:''
       (log_verbose sys (tsProtoc_command sys p d pf opts)
          (log_verbose sys (''Generating TypeScript code in '' @ d @ '' for:'' @ [newline]
                     @ join [newline] pf @ ''...'') st))"
  by (simp add: tsProtoc_def guarded_exec_def exec_def Let_def split: prod.splits sum.splits)

lemma exportDescriptor_guarded:
  "exportDescriptor sys p pf st =
     guarded_exec sys (descriptorProtocCommand sys p pf)
       ''Error generating descriptor set for proto file:''
       (log_verbose sys ''Generating descriptor set...'' st)"
  by (simp add: exportDescriptor_def guarded_exec_def exec_def Let_def split: prod.splits sum.splits)

lemma guarded_exec_failed:
  assumes "execSync sys c (files st) = (Inl message, fs')"
  shows "guarded_exec sys c label st =
           (Exit 1, console_error [Str label, Err (ExecError c message)]
                      (emit (ExecSync c) (st\<lparr>files := fs'\<rparr>)))"
  using assms by (simp add: guarded_exec_def)

lemma guarded_exec_ok:
  assumes "execSync sys c (files st) = (Inr out, fs')"
  shows "guarded_exec sys c label st = (Returned (), emit (ExecSync c) (st\<lparr>files := fs'\<rparr>))"
  using assms by (simp add: guarded_exec_def)

lemma exec_all_none: "exec_all sys cs fs = (executed, None, fs') \<Longrightarrow> executed = cs"
  by (induction cs arbitrary: fs executed) (auto split: prod.splits sum.splits)

lemma process_proto_files_outcome:
  assumes all: "exec_all sys
      [tsProtoc_command sys protoc (TS_OUT_DIR sys) pf TS_PROTO_OPTIONS,
       tsProtoc_command sys protoc (GRPC_JS_OUT_DIR sys) pf (''outputServices=grpc-js'' # TS_PROTO_OPTIONS),
       tsProtoc_command sys protoc (NICE_JS_OUT_DIR sys) pf
         (''outputServices=nice-grpc,useExactTypes=false'' # TS_PROTO_OPTIONS),
       descriptorProtocCommand sys protoc pf] (files st) = (executed, failed, fs')"
    and run: "process_proto_files sys protoc pf st = (r, st')"
  shows "files st' = fs'
     \<and> calls (events st') = calls (events st) @ map ExecSync executed
     \<and> RESOLVED_PROTOC st' = RESOLVED_PROTOC st
     \<and> (failed = None \<longrightarrow> r = Returned ())
     \<and> (\<forall>c message. failed = Some (c, message) \<longrightarrow>
           r = Exit 1
           \<and> (\<exists>pre. events st' = pre @
                 [ExecSync c,
                  ConsoleError
                    [Str (if length executed = 4
                          then ''Error generating descriptor set for proto file:''
                          else ''Error generating TypeScript for proto files:''),
                     Err (ExecError c message)]]))"
  using all run
  unfolding process_proto_files_def tsProtoc_guarded exportDescriptor_guarded guarded_exec_def
  by (auto simp: console_error_def console_log_def split: prod.splits sum.splits)

lemma tsProtoc_command_spelled:
  "tsProtoc_command sys protoc (TS_OUT_DIR sys) protoFiles TS_PROTO_OPTIONS =
     join '' ''
       ([protoc,
         ''--proto_path='' @ quoted (PROTO_DIR sys),
         ''--plugin=protoc-gen-ts_proto='' @ quoted (TS_PROTO_PLUGIN sys),
         ''--ts_proto_out='' @ quoted (TS_OUT_DIR sys),
         ''--ts_proto_opt=env=node,esModuleInterop=true,outputServices=generic-definitions,outputIndex=true,useOptionals=none,useDate=false '']
        @ map quoted protoFiles)"
  "tsProtoc_command sys protoc (GRPC_JS_OUT_DIR sys) protoFiles
       (''outputServices=grpc-js'' # TS_PROTO_OPTIONS) =
     join '' ''
       ([protoc,
         ''--proto_path='' @ quoted (PROTO_DIR sys),
         ''--plugin=protoc-gen-ts_proto='' @ quoted (TS_PROTO_PLUGIN sys),
         ''--ts_proto_out='' @ quoted (GRPC_JS_OUT_DIR sys),
         ''--ts_proto_opt=outputServices=grpc-js,env=node,esModuleInterop=true,outputServices=generic-definitions,outputIndex=true,useOptionals=none,useDate=false '']
        @ map quoted protoFiles)"
  "tsProtoc_command sys protoc (NICE_JS_OUT_DIR sys) protoFiles
       (''outputServices=nice-grpc,useExactTypes=false'' # TS_PROTO_OPTIONS) =
     join '' ''
       ([protoc,
         ''--proto_path='' @ quoted (PROTO_DIR sys),
         ''--plugin=protoc-gen-ts_proto='' @ quoted (TS_PROTO_PLUGIN sys),
         ''--ts_proto_out='' @ quoted (NICE_JS_OUT_DIR sys),
         ''--ts_proto_opt=outputServices=nice-grpc,useExactTypes=false,env=node,esModuleInterop=true,outputServices=generic-definitions,outputIndex=true,useOptionals=none,useDate=false '']
        @ map quoted protoFiles)"
  by (simp_all add: tsProtoc_command_def tsProtoc_args_def TS_PROTO_OPTIONS_def)

lemma descriptorProtocCommand_spelled:
  "descriptorProtocCommand sys protoc protoFiles =
     join '' ''
       ([protoc,
         ''--proto_path='' @ quoted (PROTO_DIR sys),
         ''--descriptor_set_out='' @ quoted (DESCRIPTOR_OUT_DIR sys @ ''/descriptor_set.pb''),
         ''--include_imports'']
        @ protoFiles)"
  by (simp add: descriptorProtocCommand_def descriptor_args_def descriptorFile_def path_join_def)

text \<open>A run of \<open>compileProtos\<close> that returns with a protoc resolved, step by step.\<close>

lemma compileProtos_Returned:
  assumes run: "compileProtos sys st = (Returned (), st')"
    and res: "RESOLVED_PROTOC st' = Some protoc" and ne: "protoc \<noteq> []"
  shows "\<exists>s1 s2 s3 s4 protoFiles.
           checkAppleSiliconCompatibility sys
             (console_log [Str ''Compiling Protocol Buffers...''] st) = (Returned (), s1)
           \<and> locateProtoc sys s1 = (Returned (), s2)
           \<and> RESOLVED_PROTOC s2 = Some protoc
           \<and> mkdir_all sys
                [TS_OUT_DIR sys, GRPC_JS_OUT_DIR sys, NICE_JS_OUT_DIR sys, DESCRIPTOR_OUT_DIR sys] s2
               = (Returned (), s3)
           \<and> find_protos sys s3 = (Returned protoFiles, s4)
           \<and> process_proto_files sys protoc protoFiles s4 = (Returned (), st')"
proof -
  from run obtain s1 s2 where
    apple: "checkAppleSiliconCompatibility sys
             (console_log [Str ''Compiling Protocol Buffers...''] st) = (Returned (), s1)"
    and loc: "locateProtoc sys s1 = (Returned (), s2)"
    and rest: "(case RESOLVED_PROTOC s2 of
            None \<Rightarrow> (Returned (), s2)
          | Some protoc \<Rightarrow> if protoc = [] then (Returned (), s2) else generate sys protoc s2)
        = (Returned (), st')"
    unfolding compileProtos_def by (auto dest!: and_then_Returned)
  show ?thesis
  proof (cases "RESOLVED_PROTOC s2")
    case None
    then show ?thesis using rest res by simp
  next
    case (Some p)
    show ?thesis
    proof (cases "p = []")
      case True
      then show ?thesis using rest res ne Some by simp
    next
      case False
      then have g: "generate sys p s2 = (Returned (), st')" using rest Some by simp
      then obtain s3 s4 protoFiles where
        m: "mkdir_all sys
              [TS_OUT_DIR sys, GRPC_JS_OUT_DIR sys, NICE_JS_OUT_DIR sys, DESCRIPTOR_OUT_DIR sys] s2
            = (Returned (), s3)"
        and f: "find_protos sys s3 = (Returned protoFiles, s4)"
        and pr: "process_proto_files sys p protoFiles s4 = (Returned (), st')"
        unfolding generate_def by (auto dest!: and_then_Returned)
      obtain executed failed fs' where all: "exec_all sys
          [tsProtoc_command sys p (TS_OUT_DIR sys) protoFiles TS_PROTO_OPTIONS,
           tsProtoc_command sys p (GRPC_JS_OUT_DIR sys) protoFiles (''outputServices=grpc-js'' # TS_PROTO_OPTIONS),
           tsProtoc_command sys p (NICE_JS_OUT_DIR sys) protoFiles
             (''outputServices=nice-grpc,useExactTypes=false'' # TS_PROTO_OPTIONS),
           descriptorProtocCommand sys p protoFiles] (files s4) = (executed, failed, fs')"
        using prod_cases3 by blast
      have "RESOLVED_PROTOC st' = RESOLVED_PROTOC s4"
        using process_proto_files_outcome [OF all pr] by simp
      then have "RESOLVED_PROTOC st' = RESOLVED_PROTOC s2"
        using mkdir_all_Returned [OF m] find_protos_Returned [OF f] by simp
      then have "p = protoc" using res Some by simp
      then show ?thesis using apple loc Some m f pr by blast
    qed
  qed
qed

lemma generation_Returned:
  assumes m: "mkdir_all sys
                [TS_OUT_DIR sys, GRPC_JS_OUT_DIR sys, NICE_JS_OUT_DIR sys, DESCRIPTOR_OUT_DIR sys] s2
               = (Returned (), s3)"
    and f: "find_protos sys s3 = (Returned protoFiles, s4)"
    and pr: "process_proto_files sys protoc protoFiles s4 = (Returned (), st')"
  shows "mkdir sys (TS_OUT_DIR sys) (files s2) = None
       \<and> mkdir sys (GRPC_JS_OUT_DIR sys) (files s2) = None
       \<and> mkdir sys (NICE_JS_OUT_DIR sys) (files s2) = None
       \<and> mkdir sys (DESCRIPTOR_OUT_DIR sys) (files s2) = None
       \<and> globby sys ''**/*.proto'' (PROTO_DIR sys) (files s2) = Inr protoFiles
       \<and> exec_all sys
           [tsProtoc_command sys protoc (TS_OUT_DIR sys) protoFiles TS_PROTO_OPTIONS,
            tsProtoc_command sys protoc (GRPC_JS_OUT_DIR sys) protoFiles
              (''outputServices=grpc-js'' # TS_PROTO_OPTIONS),
            tsProtoc_command sys protoc (NICE_JS_OUT_DIR sys) protoFiles
              (''outputServices=nice-grpc,useExactTypes=false'' # TS_PROTO_OPTIONS),
            descriptorProtocCommand sys protoc protoFiles] (files s2)
           = ([tsProtoc_command sys protoc (TS_OUT_DIR sys) protoFiles TS_PROTO_OPTIONS,
               tsProtoc_command sys protoc (GRPC_JS_OUT_DIR sys) protoFiles
                 (''outputServices=grpc-js'' # TS_PROTO_OPTIONS),
               tsProtoc_command sys protoc (NICE_JS_OUT_DIR sys) protoFiles
                 (''outputServices=nice-grpc,useExactTypes=false'' # TS_PROTO_OPTIONS),
               descriptorProtocCommand sys protoc protoFiles], None, files st')
       \<and> calls (events st') = calls (events s2) @
           [Mkdir (TS_OUT_DIR sys), Mkdir (GRPC_JS_OUT_DIR sys), Mkdir (NICE_JS_OUT_DIR sys),
            Mkdir (DESCRIPTOR_OUT_DIR sys), Globby ''**/*.proto'' (PROTO_DIR sys),
            ExecSync (tsProtoc_command sys protoc (TS_OUT_DIR sys) protoFiles TS_PROTO_OPTIONS),
            ExecSync (tsProtoc_command sys protoc (GRPC_JS_OUT_DIR sys) protoFiles
                 (''outputServices=grpc-js'' # TS_PROTO_OPTIONS)),
            ExecSync (tsProtoc_command sys protoc (NICE_JS_OUT_DIR sys) protoFiles
                 (''outputServices=nice-grpc,useExactTypes=false'' # TS_PROTO_OPTIONS)),
            ExecSync (descriptorProtocCommand sys protoc protoFiles)]"
proof -
  let ?cs = "[tsProtoc_command sys protoc (TS_OUT_DIR sys) protoFiles TS_PROTO_OPTIONS,
            tsProtoc_command sys protoc (GRPC_JS_OUT_DIR sys) protoFiles
              (''outputServices=grpc-js'' # TS_PROTO_OPTIONS),
            tsProtoc_command sys protoc (NICE_JS_OUT_DIR sys) protoFiles
              (''outputServices=nice-grpc,useExactTypes=false'' # TS_PROTO_OPTIONS),
            descriptorProtocCommand sys protoc protoFiles]"
  obtain executed failed fs' where all: "exec_all sys ?cs (files s4) = (executed, failed, fs')"
    using prod_cases3 by blast
  note o = process_proto_files_outcome [OF all pr]
  have none: "failed = None"
  proof (cases failed)
    case None
    then show ?thesis .
  next
    case (Some cm)
    then show ?thesis using o by (cases cm) auto
  qed
  have ex: "executed = ?cs" using all none exec_all_none by blast
  have fs: "fs' = files st'" using o by simp
  have f2: "files s4 = files s2"
    using mkdir_all_Returned [OF m] find_protos_Returned [OF f] by simp
  have a: "exec_all sys ?cs (files s2) = (?cs, None, files st')"
    using all none ex fs f2 by simp
  have c: "calls (events st') = calls (events s2) @
      map Mkdir [TS_OUT_DIR sys, GRPC_JS_OUT_DIR sys, NICE_JS_OUT_DIR sys, DESCRIPTOR_OUT_DIR sys]
      @ [Globby ''**/*.proto'' (PROTO_DIR sys)] @ map ExecSync ?cs"
    using o ex mkdir_all_Returned [OF m] find_protos_Returned [OF f] by simp
  have g: "globby sys ''**/*.proto'' (PROTO_DIR sys) (files s2) = Inr protoFiles"
    using mkdir_all_Returned [OF m] find_protos_Returned [OF f] by simp
  have d: "\<forall>d \<in> set [TS_OUT_DIR sys, GRPC_JS_OUT_DIR sys, NICE_JS_OUT_DIR sys, DESCRIPTOR_OUT_DIR sys].
             mkdir sys d (files s2) = None"
    using mkdir_all_Returned [OF m] by blast
  show ?thesis using a c g d by simp
qed

lemma out_dirs_apart:
  "apart (TS_OUT_DIR sys) (GRPC_JS_OUT_DIR sys)"
  "apart (TS_OUT_DIR sys) (NICE_JS_OUT_DIR sys)"
  "apart (GRPC_JS_OUT_DIR sys) (NICE_JS_OUT_DIR sys)"
  by (simp_all add: apart_def in_dir_def TS_OUT_DIR_def GRPC_JS_OUT_DIR_def NICE_JS_OUT_DIR_def
      path_resolve_def absolute_def)

lemma exec_all_failed:
  "exec_all sys cs fs = (executed, Some (c, message), fs') \<Longrightarrow>
     executed = take (length executed) cs \<and> executed \<noteq> [] \<and> last executed = c"
proof (induction cs arbitrary: fs executed)
  case Nil
  then show ?case by simp
next
  case (Cons a cs)
  obtain r f1 where x: "execSync sys a fs = (r, f1)" by (cases "execSync sys a fs")
  show ?case
  proof (cases r)
    case (Inl m)
    then show ?thesis using Cons.prems x by auto
  next
    case (Inr out)
    obtain e2 fl f2 where rest: "exec_all sys cs f1 = (e2, fl, f2)"
      using prod_cases3 by blast
    have "executed = a # e2" "fl = Some (c, message)" "f2 = fs'"
      using Cons.prems x Inr rest by auto
    then show ?thesis using Cons.IH [of f1 e2] rest by auto
  qed
qed

lemma triple_case: "(case X of (a, b, c) \<Rightarrow> a = A \<and> b = B) \<Longrightarrow> X = (A, B, snd (snd X))"
  by (cases X) auto

lemma demo_broken_located:
  "fst (locateProtoc (demo_sys Map.empty True) (console_log [Str ''Compiling Protocol Buffers...''] (cleanup (demo_sys Map.empty True) (fresh demo_fs)))) = Returned ()
   \<and> RESOLVED_PROTOC (snd (locateProtoc (demo_sys Map.empty True) (console_log [Str ''Compiling Protocol Buffers...''] (cleanup (demo_sys Map.empty True) (fresh demo_fs))))) = Some ''/w/node_modules/grpc-tools/bin/protoc''"
  by code_simp

lemma demo_broken_commands:
  "(case exec_all (demo_sys Map.empty True)
     [tsProtoc_command (demo_sys Map.empty True) ''/w/node_modules/grpc-tools/bin/protoc'' (TS_OUT_DIR (demo_sys Map.empty True)) [''a.proto''] TS_PROTO_OPTIONS,
      tsProtoc_command (demo_sys Map.empty True) ''/w/node_modules/grpc-tools/bin/protoc'' (GRPC_JS_OUT_DIR (demo_sys Map.empty True)) [''a.proto''] (''outputServices=grpc-js'' # TS_PROTO_OPTIONS),
      tsProtoc_command (demo_sys Map.empty True) ''/w/node_modules/grpc-tools/bin/protoc'' (NICE_JS_OUT_DIR (demo_sys Map.empty True)) [''a.proto''] (''outputServices=nice-grpc,useExactTypes=false'' # TS_PROTO_OPTIONS),
      descriptorProtocCommand (demo_sys Map.empty True) ''/w/node_modules/grpc-tools/bin/protoc'' [''a.proto'']]
     (files (snd (locateProtoc (demo_sys Map.empty True) (console_log [Str ''Compiling Protocol Buffers...''] (cleanup (demo_sys Map.empty True) (fresh demo_fs)))))) of
      (executed, failed, fs') \<Rightarrow>
        executed = [tsProtoc_command (demo_sys Map.empty True) ''/w/node_modules/grpc-tools/bin/protoc'' (TS_OUT_DIR (demo_sys Map.empty True)) [''a.proto''] TS_PROTO_OPTIONS, tsProtoc_command (demo_sys Map.empty True) ''/w/node_modules/grpc-tools/bin/protoc'' (GRPC_JS_OUT_DIR (demo_sys Map.empty True)) [''a.proto''] (''outputServices=grpc-js'' # TS_PROTO_OPTIONS)]
        \<and> failed = Some (tsProtoc_command (demo_sys Map.empty True) ''/w/node_modules/grpc-tools/bin/protoc'' (GRPC_JS_OUT_DIR (demo_sys Map.empty True)) [''a.proto''] (''outputServices=grpc-js'' # TS_PROTO_OPTIONS), ''Command failed: '' @ tsProtoc_command (demo_sys Map.empty True) ''/w/node_modules/grpc-tools/bin/protoc'' (GRPC_JS_OUT_DIR (demo_sys Map.empty True)) [''a.proto''] (''outputServices=grpc-js'' # TS_PROTO_OPTIONS)))"
  by code_simp

subsection \<open>Skipping, a missing protoc, cleanup\<close>

text \<open>
  C3, as stated: every run with \<open>SKIP_PROTOS\<close> set to \<open>"1"\<close> returns success at once.
  The test of \<open>SKIP_PROTOS\<close> is the first statement of \<open>main\<close>, and \<open>main\<close> is called by
  the last statement of the module. Where the ts-proto plugin cannot be resolved (and the
  platform is not Windows) the module does not load: the process ends with code 1 and
  \<open>main\<close> is never called, whatever \<open>SKIP_PROTOS\<close> is.
\<close>

theorem skip_protos_without_plugin_fails:
  "env (no_plugin_sys [''SKIP_PROTOS'' \<mapsto> ''1'']) ''SKIP_PROTOS'' = Some ''1''
   \<and> build_proto (no_plugin_sys [''SKIP_PROTOS'' \<mapsto> ''1'']) (fresh demo_fs)
       = (Exit 1,
          (fresh demo_fs)
            \<lparr>events := [Uncaught (JsError ''Cannot find module ts-proto/protoc-gen-ts_proto'')]\<rparr>)
   \<and> exit_code (build_proto (no_plugin_sys [''SKIP_PROTOS'' \<mapsto> ''1'']) (fresh demo_fs)) = 1"
  by (simp add: build_proto_def load_module_def no_plugin_sys_def demo_sys_def isWindows_def
      exit_code_def emit_def fresh_def)

text \<open>
  C3, amended: with \<open>SKIP_PROTOS\<close> set to \<open>"1"\<close>, a process whose module loads returns
  from \<open>main\<close> at once and ends with code 0, and a process whose module does not load ends
  with code 1 before \<open>main\<close> is called. In both the state is the one the process started
  in but for the one line reported: nothing was removed, no command was run and neither
  generator was called. \<open>main\<close> itself, whenever it is called, returns at once.
\<close>

theorem main_skip:
  assumes "env sys ''SKIP_PROTOS'' = Some ''1''"
  shows "main sys st =
           (Returned (),
            st\<lparr>events := events st
               @ [ConsoleLog [Str ''[build-proto] Skipping proto generation due to SKIP_PROTOS=1'']]\<rparr>)
         \<and> (case load_module sys of
               Inr plugin \<Rightarrow>
                 build_proto sys st = main sys st \<and> exit_code (build_proto sys st) = 0
             | Inl error \<Rightarrow>
                 build_proto sys st = (Exit 1, st\<lparr>events := events st @ [Uncaught error]\<rparr>)
                 \<and> exit_code (build_proto sys st) = 1)"
  using assms
  by (simp add: build_proto_def run_def main_def console_log_def emit_def exit_code_def
      split: sum.splits)

theorem main_skip_witness:
  "build_proto (demo_sys [''SKIP_PROTOS'' \<mapsto> ''1''] False) (fresh demo_fs)
     = (Returned (),
        (fresh demo_fs)
          \<lparr>events := [ConsoleLog [Str ''[build-proto] Skipping proto generation due to SKIP_PROTOS=1'']]\<rparr>)
   \<and> exit_code (build_proto (demo_sys [''SKIP_PROTOS'' \<mapsto> ''1''] False) (fresh demo_fs)) = 0
   \<and> exit_code (build_proto (no_plugin_sys [''SKIP_PROTOS'' \<mapsto> ''1'']) (fresh demo_fs)) = 1"
proof -
  have h1: "env (demo_sys [''SKIP_PROTOS'' \<mapsto> ''1''] False) ''SKIP_PROTOS'' = Some ''1''"
    by (simp add: demo_sys_def)
  have h2: "env (no_plugin_sys [''SKIP_PROTOS'' \<mapsto> ''1'']) ''SKIP_PROTOS'' = Some ''1''"
    by (simp add: no_plugin_sys_def demo_sys_def)
  have l1: "load_module (demo_sys [''SKIP_PROTOS'' \<mapsto> ''1''] False)
              = Inr ''/w/node_modules/ts-proto/protoc-gen-ts_proto''"
    by (simp add: load_module_def demo_sys_def isWindows_def)
  have l2: "load_module (no_plugin_sys [''SKIP_PROTOS'' \<mapsto> ''1''])
              = Inl (JsError ''Cannot find module ts-proto/protoc-gen-ts_proto'')"
    by (simp add: load_module_def no_plugin_sys_def demo_sys_def isWindows_def)
  show ?thesis
    using main_skip [OF h1, of "fresh demo_fs"] main_skip [OF h2, of "fresh demo_fs"] l1 l2
    by (simp add: fresh_def exit_code_def)
qed

text \<open>
  C4. A run that is not skipped reaches \<open>locateProtoc\<close> when the Apple Silicon check
  returns. When none of the candidates answers \<open>--version\<close>, the process exits with code
  1 after the six lines of advice, unless \<open>ALLOW_PROTO_FAILURE\<close> is \<open>"1"\<close>: then
  \<open>compileProtos\<close> returns without creating a directory or running protoc, and \<open>main\<close>
  goes on with the two generators.
\<close>

theorem no_working_protoc:
  assumes skip: "env sys ''SKIP_PROTOS'' \<noteq> Some ''1''"
    and unset: "RESOLVED_PROTOC st = None"
    and apple: "checkAppleSiliconCompatibility sys
                  (console_log [Str ''Compiling Protocol Buffers...''] (cleanup sys st))
                = (Returned (), st1)"
    and cands: "protoc_candidates sys st1 = (candidates, st2)"
    and none: "try_candidates sys candidates st2 = (False, st3)"
  shows "if env sys ''ALLOW_PROTO_FAILURE'' = Some ''1''
         then main sys st =
                and_then (call_generateProtoBusSetup sys
                   (console_error
                      [Str ''ALLOW_PROTO_FAILURE=1 set; skipping protoc generation and continuing.'']
                      (no_protoc_messages st3)))
                  (\<lambda>_ st. call_generateHostBridgeClient sys st)
         else run sys st = (Exit 1, no_protoc_messages st3) \<and> exit_code (run sys st) = 1"
proof -
  have r1: "RESOLVED_PROTOC st1 = None"
    using checkApple_resolved [OF apple] unset by simp
  have r3: "RESOLVED_PROTOC st3 = None"
    using try_candidates_none [OF none] protoc_candidates_resolved [OF cands] r1 by simp
  have r4: "RESOLVED_PROTOC (no_protoc_messages st3) = None"
    using r3 by (simp add: no_protoc_messages_def)
  show ?thesis
  proof (cases "env sys ''ALLOW_PROTO_FAILURE'' = Some ''1''")
    case True
    then have loc: "locateProtoc sys st1 =
        (Returned (), console_error
           [Str ''ALLOW_PROTO_FAILURE=1 set; skipping protoc generation and continuing.'']
           (no_protoc_messages st3))"
      using cands none r3 by (simp add: locateProtoc_def falsy_def)
    have "compileProtos sys (cleanup sys st) =
        (Returned (), console_error
           [Str ''ALLOW_PROTO_FAILURE=1 set; skipping protoc generation and continuing.'']
           (no_protoc_messages st3))"
      using apple loc r4 by (simp add: compileProtos_def)
    then show ?thesis using True skip by (simp add: main_def)
  next
    case False
    then have loc: "locateProtoc sys st1 = (Exit 1, no_protoc_messages st3)"
      using cands none r3 by (simp add: locateProtoc_def falsy_def)
    have "compileProtos sys (cleanup sys st) = (Exit 1, no_protoc_messages st3)"
      using apple loc by (simp add: compileProtos_def)
    then show ?thesis using False skip by (simp add: main_def run_def exit_code_def)
  qed
qed

lemmas build_eval =
  checkAppleSiliconCompatibility_def protoc_candidates_def tryProtocVersion_def exec_def
  path_join_up_def dirname_def path_resolve_def absolute_def quoted_def dq_def error_text_def

theorem no_working_protoc_witness:
  "exit_code (run (bare_sys Map.empty) (fresh demo_fs)) = 1
   \<and> fst (main (bare_sys [''ALLOW_PROTO_FAILURE'' \<mapsto> ''1'']) (fresh demo_fs)) = Returned ()"
proof -
  define s1 where "s1 = bare_sys Map.empty"
  define s2 where "s2 = bare_sys [''ALLOW_PROTO_FAILURE'' \<mapsto> ''1'']"
  define a where "a s = console_log [Str ''Compiling Protocol Buffers...''] (cleanup s (fresh demo_fs))"
    for s
  define c where "c s = protoc_candidates s (a s)" for s
  define t where "t s = try_candidates s (fst (c s)) (snd (c s))" for s
  have unset: "RESOLVED_PROTOC (fresh demo_fs) = None" by (simp add: fresh_def)
  have skip: "env s1 ''SKIP_PROTOS'' \<noteq> Some ''1''" "env s2 ''SKIP_PROTOS'' \<noteq> Some ''1''"
    by (simp_all add: s1_def s2_def bare_sys_def)
  have apple:
    "checkAppleSiliconCompatibility s1
       (console_log [Str ''Compiling Protocol Buffers...''] (cleanup s1 (fresh demo_fs)))
     = (Returned (), a s1)"
    "checkAppleSiliconCompatibility s2
       (console_log [Str ''Compiling Protocol Buffers...''] (cleanup s2 (fresh demo_fs)))
     = (Returned (), a s2)"
    by (simp_all add: checkAppleSiliconCompatibility_def s1_def s2_def bare_sys_def a_def)
  have cands: "protoc_candidates s1 (a s1) = (fst (c s1), snd (c s1))"
    "protoc_candidates s2 (a s2) = (fst (c s2), snd (c s2))"
    by (simp_all add: c_def)
  have cs: "fst (c s1) = [''/w/node_modules/grpc-tools/bin/protoc'']"
    "fst (c s2) = [''/w/node_modules/grpc-tools/bin/protoc'']"
    by (simp_all add: c_def build_eval s1_def s2_def bare_sys_def)
  have none: "t s1 = (False, snd (t s1))" "t s2 = (False, snd (t s2))"
    by (simp_all add: t_def cs, simp_all add: build_eval s1_def s2_def bare_sys_def)
  have allow: "env s1 ''ALLOW_PROTO_FAILURE'' \<noteq> Some ''1''" "env s2 ''ALLOW_PROTO_FAILURE'' = Some ''1''"
    by (simp_all add: s1_def s2_def bare_sys_def)
  have e1: "exit_code (run s1 (fresh demo_fs)) = 1"
    using no_working_protoc [OF skip(1) unset apple(1) cands(1) none(1) [unfolded t_def]] allow(1)
    by (simp add: exit_code_def)
  have e2: "main s2 (fresh demo_fs) =
      and_then (call_generateProtoBusSetup s2
         (console_error
            [Str ''ALLOW_PROTO_FAILURE=1 set; skipping protoc generation and continuing.'']
            (no_protoc_messages (snd (t s2)))))
        (\<lambda>_ st. call_generateHostBridgeClient s2 st)"
    using no_working_protoc [OF skip(2) unset apple(2) cands(2) none(2) [unfolded t_def]] allow(2)
    by (simp add: t_def)
  have r2: "fst (main s2 (fresh demo_fs)) = Returned ()"
    unfolding e2
    by (simp add: call_generateProtoBusSetup_def call_generateHostBridgeClient_def
        s2_def bare_sys_def Let_def)
  show ?thesis using e1 r2 by (simp add: s1_def s2_def)
qed

lemma path_resolve_absolute: "absolute p \<Longrightarrow> path_resolve sys p = p"
  by (simp add: path_resolve_def)

lemma absolute_append: "absolute p \<Longrightarrow> absolute (p @ q)"
  by (cases p) (auto simp: absolute_def)

lemma in_dir_sub: "in_dir (d @ ''/'' @ sub) p \<Longrightarrow> in_dir d p"
proof -
  assume a: "in_dir (d @ ''/'' @ sub) p"
  then consider "p = d @ ''/'' @ sub" | "prefix ((d @ ''/'' @ sub) @ ''/'') p"
    by (auto simp: in_dir_def)
  then have "prefix (d @ ''/'') p"
  proof cases
    case 1
    then show ?thesis by simp
  next
    case 2
    then obtain r where "p = ((d @ ''/'' @ sub) @ ''/'') @ r" by (auto simp: prefix_def)
    then have "p = (d @ ''/'') @ (sub @ ''/'' @ r)" by simp
    then show ?thesis by (rule prefixI)
  qed
  then show ?thesis by (simp add: in_dir_def)
qed

lemma files_rmrf:
  "files (rmrf sys d st) k = (if in_dir (path_resolve sys d) k then None else files st k)"
  by (simp add: rmrf_def)

lemma files_foldl_rmrf:
  "files (foldl (\<lambda>st p. rmrf sys p st) s ps) k =
     (if \<exists>d \<in> set ps. in_dir (path_resolve sys d) k then None else files s k)"
  by (induction ps arbitrary: s) (auto simp: files_rmrf)

lemma files_cleanup:
  "files (cleanup sys st) k =
     (if \<exists>d \<in> set (cleanup_paths sys). in_dir (path_resolve sys d) k then None else files st k)"
  by (simp add: cleanup_def files_foldl_rmrf)

lemma execs_rmrf [simp]: "execs (events (rmrf sys p st)) = execs (events st)"
  by (simp add: rmrf_def)

lemma execs_cleanup: "execs (events (cleanup sys st)) = execs (events st)"
proof -
  have "execs (events (foldl (\<lambda>st p. rmrf sys p st) s ps)) = execs (events s)" for s ps
    by (induction ps arbitrary: s) simp_all
  then show ?thesis by (simp add: cleanup_def)
qed

text \<open>
  C5, as stated: on a run that is not skipped, the previous output of every target, the
  descriptor output among them, is deleted before new output is written. \<open>cleanup\<close>
  never touches \<open>dist-standalone/proto\<close>: the descriptor set of the run before is
  still there when \<open>compileProtos\<close> starts.
\<close>

theorem descriptor_output_not_cleaned:
  "in_dir (DESCRIPTOR_OUT_DIR (demo_sys Map.empty False)) ''/w/dist-standalone/proto/descriptor_set.pb''
   \<and> files (cleanup (demo_sys Map.empty False) (fresh demo_fs))
        ''/w/dist-standalone/proto/descriptor_set.pb'' = Some ''previous''"
  by code_simp

text \<open>
  C5, amended: on a run that is not skipped, \<open>cleanup\<close> comes first; after it no file
  is left in any of the three stub directories, it has written nothing and run no
  command. (The descriptor directory is not among the paths \<open>cleanup\<close> removes.)
\<close>

theorem cleanup_clears_stub_directories:
  assumes skip: "env sys ''SKIP_PROTOS'' \<noteq> Some ''1''"
    and cwd: "absolute (cwd sys)"
  shows "main sys st =
           and_then (compileProtos sys (cleanup sys st))
             (\<lambda>_ st. and_then (call_generateProtoBusSetup sys st)
                (\<lambda>_ st. call_generateHostBridgeClient sys st))
         \<and> (\<forall>p. in_dir (TS_OUT_DIR sys) p \<or> in_dir (GRPC_JS_OUT_DIR sys) p
                  \<or> in_dir (NICE_JS_OUT_DIR sys) p
               \<longrightarrow> files (cleanup sys st) p = None)
         \<and> (\<forall>p. files (cleanup sys st) p = None \<or> files (cleanup sys st) p = files st p)
         \<and> execs (events (cleanup sys st)) = execs (events st)"
proof -
  have ts: "path_resolve sys (TS_OUT_DIR sys) = TS_OUT_DIR sys"
  proof -
    have "TS_OUT_DIR sys = cwd sys @ ''/src/shared/proto''"
      by (simp add: TS_OUT_DIR_def path_resolve_def absolute_def)
    then have "absolute (TS_OUT_DIR sys)" using cwd by (simp add: absolute_append)
    then show ?thesis by (rule path_resolve_absolute)
  qed
  have gen: "path_resolve sys ''src/generated'' = cwd sys @ ''/'' @ ''src/generated''"
    by (simp add: path_resolve_def absolute_def)
  have grpc: "GRPC_JS_OUT_DIR sys = (cwd sys @ ''/'' @ ''src/generated'') @ ''/'' @ ''grpc-js''"
    by (simp add: GRPC_JS_OUT_DIR_def path_resolve_def absolute_def)
  have nice: "NICE_JS_OUT_DIR sys = (cwd sys @ ''/'' @ ''src/generated'') @ ''/'' @ ''nice-grpc''"
    by (simp add: NICE_JS_OUT_DIR_def path_resolve_def absolute_def)
  have m1: "TS_OUT_DIR sys \<in> set (cleanup_paths sys)" "''src/generated'' \<in> set (cleanup_paths sys)"
    by (simp_all add: cleanup_paths_def)
  have cleared: "files (cleanup sys st) p = None"
    if "in_dir (TS_OUT_DIR sys) p \<or> in_dir (GRPC_JS_OUT_DIR sys) p \<or> in_dir (NICE_JS_OUT_DIR sys) p"
    for p
  proof -
    from that consider "in_dir (TS_OUT_DIR sys) p" | "in_dir (GRPC_JS_OUT_DIR sys) p"
      | "in_dir (NICE_JS_OUT_DIR sys) p" by blast
    then have "\<exists>d \<in> set (cleanup_paths sys). in_dir (path_resolve sys d) p"
    proof cases
      case 1
      then show ?thesis using m1(1) ts by metis
    next
      case 2
      then have "in_dir (path_resolve sys ''src/generated'') p"
        unfolding grpc gen by (rule in_dir_sub)
      then show ?thesis using m1(2) by blast
    next
      case 3
      then have "in_dir (path_resolve sys ''src/generated'') p"
        unfolding nice gen by (rule in_dir_sub)
      then show ?thesis using m1(2) by blast
    qed
    then show ?thesis by (simp add: files_cleanup)
  qed
  have nowrite: "files (cleanup sys st) p = None \<or> files (cleanup sys st) p = files st p" for p
    by (simp add: files_cleanup)
  have "main sys st =
           and_then (compileProtos sys (cleanup sys st))
             (\<lambda>_ st. and_then (call_generateProtoBusSetup sys st)
                (\<lambda>_ st. call_generateHostBridgeClient sys st))"
    using skip by (simp add: main_def)
  then show ?thesis using cleared nowrite execs_cleanup by blast
qed

theorem cleanup_clears_stub_directories_witness:
  "files (fresh demo_fs) ''/w/src/shared/proto/gone.ts'' = Some ''stale''
   \<and> files (cleanup (demo_sys Map.empty False) (fresh demo_fs)) ''/w/src/shared/proto/gone.ts'' = None"
proof -
  have skip: "env (demo_sys Map.empty False) ''SKIP_PROTOS'' \<noteq> Some ''1''"
    by (simp add: demo_sys_def)
  have cwd: "absolute (cwd (demo_sys Map.empty False))"
    by (simp add: demo_sys_def absolute_def)
  have d: "in_dir (TS_OUT_DIR (demo_sys Map.empty False)) ''/w/src/shared/proto/gone.ts''"
    by (simp add: in_dir_def TS_OUT_DIR_def path_resolve_def absolute_def demo_sys_def)
  have "files (cleanup (demo_sys Map.empty False) (fresh demo_fs)) ''/w/src/shared/proto/gone.ts'' = None"
    using cleanup_clears_stub_directories [OF skip cwd, of "fresh demo_fs"] d by blast
  moreover have "files (fresh demo_fs) ''/w/src/shared/proto/gone.ts'' = Some ''stale''"
    by (simp add: fresh_def demo_fs_def)
  ultimately show ?thesis by simp
qed

subsection \<open>The three stub flavors and the descriptor export\<close>

lemma demo_compile:
  "fst (compileProtos (demo_sys Map.empty False) (fresh demo_fs)) = Returned ()
   \<and> RESOLVED_PROTOC (snd (compileProtos (demo_sys Map.empty False) (fresh demo_fs)))
       = Some ''/w/node_modules/grpc-tools/bin/protoc''
   \<and> files (snd (compileProtos (demo_sys Map.empty False) (fresh demo_fs)))
         ''/w/src/shared/proto/a.ts'' = Some ''generic stub''
   \<and> files (snd (compileProtos (demo_sys Map.empty False) (fresh demo_fs)))
         ''/w/src/generated/grpc-js/a.ts'' = Some ''grpc-js stub''
   \<and> files (snd (compileProtos (demo_sys Map.empty False) (fresh demo_fs)))
         ''/w/src/generated/nice-grpc/a.ts'' = Some ''nice-grpc stub''
   \<and> files (snd (compileProtos (demo_sys Map.empty False) (fresh demo_fs)))
         ''/w/dist-standalone/proto/descriptor_set.pb'' = Some ''descriptor''"
  by code_simp

text \<open>
  C6, as stated: every generation run produces the three stub flavors. A run that is not
  skipped, finds no working protoc and has \<open>ALLOW_PROTO_FAILURE\<close> set to \<open>"1"\<close> ends with
  code 0: \<open>cleanup\<close> has emptied the stub directories, the only commands run are the search
  for protoc, and no flavor is produced.
\<close>

theorem tolerated_run_produces_no_flavor:
  "env (bare_sys [''ALLOW_PROTO_FAILURE'' \<mapsto> ''1'']) ''SKIP_PROTOS'' = None
   \<and> fst (build_proto (bare_sys [''ALLOW_PROTO_FAILURE'' \<mapsto> ''1'']) (fresh demo_fs)) = Returned ()
   \<and> exit_code (build_proto (bare_sys [''ALLOW_PROTO_FAILURE'' \<mapsto> ''1'']) (fresh demo_fs)) = 0
   \<and> execs (events (snd (build_proto (bare_sys [''ALLOW_PROTO_FAILURE'' \<mapsto> ''1'']) (fresh demo_fs))))
       = [''which protoc'', quoted ''/w/node_modules/grpc-tools/bin/protoc'' @ '' --version'']
   \<and> files (snd (build_proto (bare_sys [''ALLOW_PROTO_FAILURE'' \<mapsto> ''1'']) (fresh demo_fs)))
         ''/w/src/shared/proto/gone.ts'' = None
   \<and> files (snd (build_proto (bare_sys [''ALLOW_PROTO_FAILURE'' \<mapsto> ''1'']) (fresh demo_fs)))
         ''/w/src/shared/proto/a.ts'' = None
   \<and> files (snd (build_proto (bare_sys [''ALLOW_PROTO_FAILURE'' \<mapsto> ''1'']) (fresh demo_fs)))
         ''/w/src/generated/grpc-js/a.ts'' = None
   \<and> files (snd (build_proto (bare_sys [''ALLOW_PROTO_FAILURE'' \<mapsto> ''1'']) (fresh demo_fs)))
         ''/w/src/generated/nice-grpc/a.ts'' = None"
  by code_simp

text \<open>
  C6, amended: every run of \<open>compileProtos\<close> that returns with a protoc resolved has
  created the four output directories, listed the schema files once, and then run these
  four commands, each on the file tree the one before it left and each with success: the
  generic-definitions command with \<open>--ts_proto_out\<close> \<open>src/shared/proto\<close>, the grpc-js command
  with \<open>src/generated/grpc-js\<close>, the nice-grpc command with \<open>src/generated/nice-grpc\<close>, all
  three on that one list of files, and the descriptor export. The file tree at the end is
  the one these commands left, and the run has called nothing else between them. No two
  of the three stub directories are the same or nested.
\<close>

theorem three_flavors_from_one_schema_set:
  assumes "compileProtos sys st = (Returned (), st')"
    and "RESOLVED_PROTOC st' = Some protoc" and "protoc \<noteq> []"
  shows "(\<exists>s1 s2 protoFiles.
      (let generic =
             join '' ''
               ([protoc,
                 ''--proto_path='' @ quoted (PROTO_DIR sys),
                 ''--plugin=protoc-gen-ts_proto='' @ quoted (TS_PROTO_PLUGIN sys),
                 ''--ts_proto_out='' @ quoted (TS_OUT_DIR sys),
                 ''--ts_proto_opt=env=node,esModuleInterop=true,outputServices=generic-definitions,outputIndex=true,useOptionals=none,useDate=false '']
                @ map quoted protoFiles);
           grpc_js =
             join '' ''
               ([protoc,
                 ''--proto_path='' @ quoted (PROTO_DIR sys),
                 ''--plugin=protoc-gen-ts_proto='' @ quoted (TS_PROTO_PLUGIN sys),
                 ''--ts_proto_out='' @ quoted (GRPC_JS_OUT_DIR sys),
                 ''--ts_proto_opt=outputServices=grpc-js,env=node,esModuleInterop=true,outputServices=generic-definitions,outputIndex=true,useOptionals=none,useDate=false '']
                @ map quoted protoFiles);
           nice_grpc =
             join '' ''
               ([protoc,
                 ''--proto_path='' @ quoted (PROTO_DIR sys),
                 ''--plugin=protoc-gen-ts_proto='' @ quoted (TS_PROTO_PLUGIN sys),
                 ''--ts_proto_out='' @ quoted (NICE_JS_OUT_DIR sys),
                 ''--ts_proto_opt=outputServices=nice-grpc,useExactTypes=false,env=node,esModuleInterop=true,outputServices=generic-definitions,outputIndex=true,useOptionals=none,useDate=false '']
                @ map quoted protoFiles);
           descriptor = descriptorProtocCommand sys protoc protoFiles
       in checkAppleSiliconCompatibility sys
            (console_log [Str ''Compiling Protocol Buffers...''] st) = (Returned (), s1)
          \<and> locateProtoc sys s1 = (Returned (), s2)
          \<and> mkdir sys (TS_OUT_DIR sys) (files s2) = None
          \<and> mkdir sys (GRPC_JS_OUT_DIR sys) (files s2) = None
          \<and> mkdir sys (NICE_JS_OUT_DIR sys) (files s2) = None
          \<and> mkdir sys (DESCRIPTOR_OUT_DIR sys) (files s2) = None
          \<and> globby sys ''**/*.proto'' (PROTO_DIR sys) (files s2) = Inr protoFiles
          \<and> exec_all sys [generic, grpc_js, nice_grpc, descriptor] (files s2)
              = ([generic, grpc_js, nice_grpc, descriptor], None, files st')
          \<and> calls (events st') = calls (events s2) @
              [Mkdir (TS_OUT_DIR sys), Mkdir (GRPC_JS_OUT_DIR sys), Mkdir (NICE_JS_OUT_DIR sys),
               Mkdir (DESCRIPTOR_OUT_DIR sys), Globby ''**/*.proto'' (PROTO_DIR sys),
               ExecSync generic, ExecSync grpc_js, ExecSync nice_grpc, ExecSync descriptor]))
    \<and> apart (TS_OUT_DIR sys) (GRPC_JS_OUT_DIR sys)
    \<and> apart (TS_OUT_DIR sys) (NICE_JS_OUT_DIR sys)
    \<and> apart (GRPC_JS_OUT_DIR sys) (NICE_JS_OUT_DIR sys)"
proof -
  from compileProtos_Returned [OF assms] obtain s1 s2 s3 s4 protoFiles where
    a: "checkAppleSiliconCompatibility sys
             (console_log [Str ''Compiling Protocol Buffers...''] st) = (Returned (), s1)"
    and l: "locateProtoc sys s1 = (Returned (), s2)"
    and m: "mkdir_all sys
                [TS_OUT_DIR sys, GRPC_JS_OUT_DIR sys, NICE_JS_OUT_DIR sys, DESCRIPTOR_OUT_DIR sys] s2
               = (Returned (), s3)"
    and f: "find_protos sys s3 = (Returned protoFiles, s4)"
    and p: "process_proto_files sys protoc protoFiles s4 = (Returned (), st')"
    by blast
  note g = generation_Returned [OF m f p, unfolded tsProtoc_command_spelled]
  have "(let generic =
             join '' ''
               ([protoc,
                 ''--proto_path='' @ quoted (PROTO_DIR sys),
                 ''--plugin=protoc-gen-ts_proto='' @ quoted (TS_PROTO_PLUGIN sys),
                 ''--ts_proto_out='' @ quoted (TS_OUT_DIR sys),
                 ''--ts_proto_opt=env=node,esModuleInterop=true,outputServices=generic-definitions,outputIndex=true,useOptionals=none,useDate=false '']
                @ map quoted protoFiles);
           grpc_js =
             join '' ''
               ([protoc,
                 ''--proto_path='' @ quoted (PROTO_DIR sys),
                 ''--plugin=protoc-gen-ts_proto='' @ quoted (TS_PROTO_PLUGIN sys),
                 ''--ts_proto_out='' @ quoted (GRPC_JS_OUT_DIR sys),
                 ''--ts_proto_opt=outputServices=grpc-js,env=node,esModuleInterop=true,outputServices=generic-definitions,outputIndex=true,useOptionals=none,useDate=false '']
                @ map quoted protoFiles);
           nice_grpc =
             join '' ''
               ([protoc,
                 ''--proto_path='' @ quoted (PROTO_DIR sys),
                 ''--plugin=protoc-gen-ts_proto='' @ quoted (TS_PROTO_PLUGIN sys),
                 ''--ts_proto_out='' @ quoted (NICE_JS_OUT_DIR sys),
                 ''--ts_proto_opt=outputServices=nice-grpc,useExactTypes=false,env=node,esModuleInterop=true,outputServices=generic-definitions,outputIndex=true,useOptionals=none,useDate=false '']
                @ map quoted protoFiles);
           descriptor = descriptorProtocCommand sys protoc protoFiles
       in checkAppleSiliconCompatibility sys
            (console_log [Str ''Compiling Protocol Buffers...''] st) = (Returned (), s1)
          \<and> locateProtoc sys s1 = (Returned (), s2)
          \<and> mkdir sys (TS_OUT_DIR sys) (files s2) = None
          \<and> mkdir sys (GRPC_JS_OUT_DIR sys) (files s2) = None
          \<and> mkdir sys (NICE_JS_OUT_DIR sys) (files s2) = None
          \<and> mkdir sys (DESCRIPTOR_OUT_DIR sys) (files s2) = None
          \<and> globby sys ''**/*.proto'' (PROTO_DIR sys) (files s2) = Inr protoFiles
          \<and> exec_all sys [generic, grpc_js, nice_grpc, descriptor] (files s2)
              = ([generic, grpc_js, nice_grpc, descriptor], None, files st')
          \<and> calls (events st') = calls (events s2) @
              [Mkdir (TS_OUT_DIR sys), Mkdir (GRPC_JS_OUT_DIR sys), Mkdir (NICE_JS_OUT_DIR sys),
               Mkdir (DESCRIPTOR_OUT_DIR sys), Globby ''**/*.proto'' (PROTO_DIR sys),
               ExecSync generic, ExecSync grpc_js, ExecSync nice_grpc, ExecSync descriptor])"
    unfolding Let_def using a l g by simp
  then show ?thesis using out_dirs_apart [of sys] by blast
qed

theorem three_flavors_from_one_schema_set_witness:
  "(\<exists>s1 s2 protoFiles.
      (let generic =
             join '' ''
               ([''/w/node_modules/grpc-tools/bin/protoc'',
                 ''--proto_path='' @ quoted (PROTO_DIR (demo_sys Map.empty False)),
                 ''--plugin=protoc-gen-ts_proto='' @ quoted (TS_PROTO_PLUGIN (demo_sys Map.empty False)),
                 ''--ts_proto_out='' @ quoted (TS_OUT_DIR (demo_sys Map.empty False)),
                 ''--ts_proto_opt=env=node,esModuleInterop=true,outputServices=generic-definitions,outputIndex=true,useOptionals=none,useDate=false '']
                @ map quoted protoFiles);
           grpc_js =
             join '' ''
               ([''/w/node_modules/grpc-tools/bin/protoc'',
                 ''--proto_path='' @ quoted (PROTO_DIR (demo_sys Map.empty False)),
                 ''--plugin=protoc-gen-ts_proto='' @ quoted (TS_PROTO_PLUGIN (demo_sys Map.empty False)),
                 ''--ts_proto_out='' @ quoted (GRPC_JS_OUT_DIR (demo_sys Map.empty False)),
                 ''--ts_proto_opt=outputServices=grpc-js,env=node,esModuleInterop=true,outputServices=generic-definitions,outputIndex=true,useOptionals=none,useDate=false '']
                @ map quoted protoFiles);
           nice_grpc =
             join '' ''
               ([''/w/node_modules/grpc-tools/bin/protoc'',
                 ''--proto_path='' @ quoted (PROTO_DIR (demo_sys Map.empty False)),
                 ''--plugin=protoc-gen-ts_proto='' @ quoted (TS_PROTO_PLUGIN (demo_sys Map.empty False)),
                 ''--ts_proto_out='' @ quoted (NICE_JS_OUT_DIR (demo_sys Map.empty False)),
                 ''--ts_proto_opt=outputServices=nice-grpc,useExactTypes=false,env=node,esModuleInterop=true,outputServices=generic-definitions,outputIndex=true,useOptionals=none,useDate=false '']
                @ map quoted protoFiles);
           descriptor = descriptorProtocCommand (demo_sys Map.empty False) ''/w/node_modules/grpc-tools/bin/protoc'' protoFiles
       in checkAppleSiliconCompatibility (demo_sys Map.empty False)
            (console_log [Str ''Compiling Protocol Buffers...''] (fresh demo_fs)) = (Returned (), s1)
          \<and> locateProtoc (demo_sys Map.empty False) s1 = (Returned (), s2)
          \<and> mkdir (demo_sys Map.empty False) (TS_OUT_DIR (demo_sys Map.empty False)) (files s2) = None
          \<and> mkdir (demo_sys Map.empty False) (GRPC_JS_OUT_DIR (demo_sys Map.empty False)) (files s2) = None
          \<and> mkdir (demo_sys Map.empty False) (NICE_JS_OUT_DIR (demo_sys Map.empty False)) (files s2) = None
          \<and> mkdir (demo_sys Map.empty False) (DESCRIPTOR_OUT_DIR (demo_sys Map.empty False)) (files s2) = None
          \<and> globby (demo_sys Map.empty False) ''**/*.proto'' (PROTO_DIR (demo_sys Map.empty False)) (files s2) = Inr protoFiles
          \<and> exec_all (demo_sys Map.empty False) [generic, grpc_js, nice_grpc, descriptor] (files s2)
              = ([generic, grpc_js, nice_grpc, descriptor], None, files (snd (compileProtos (demo_sys Map.empty False) (fresh demo_fs))))
          \<and> calls (events (snd (compileProtos (demo_sys Map.empty False) (fresh demo_fs)))) = calls (events s2) @
              [Mkdir (TS_OUT_DIR (demo_sys Map.empty False)), Mkdir (GRPC_JS_OUT_DIR (demo_sys Map.empty False)), Mkdir (NICE_JS_OUT_DIR (demo_sys Map.empty False)),
               Mkdir (DESCRIPTOR_OUT_DIR (demo_sys Map.empty False)), Globby ''**/*.proto'' (PROTO_DIR (demo_sys Map.empty False)),
               ExecSync generic, ExecSync grpc_js, ExecSync nice_grpc, ExecSync descriptor]))
   \<and> files (snd (compileProtos (demo_sys Map.empty False) (fresh demo_fs)))
         ''/w/src/shared/proto/a.ts'' = Some ''generic stub''
   \<and> files (snd (compileProtos (demo_sys Map.empty False) (fresh demo_fs)))
         ''/w/src/generated/grpc-js/a.ts'' = Some ''grpc-js stub''
   \<and> files (snd (compileProtos (demo_sys Map.empty False) (fresh demo_fs)))
         ''/w/src/generated/nice-grpc/a.ts'' = Some ''nice-grpc stub''"
proof -
  let ?D = "demo_sys Map.empty False"
  let ?r = "compileProtos ?D (fresh demo_fs)"
  have h1: "?r = (Returned (), snd ?r)"
    using demo_compile by (cases ?r) simp
  have h2: "RESOLVED_PROTOC (snd ?r) = Some ''/w/node_modules/grpc-tools/bin/protoc''"
    using demo_compile by simp
  have h3: "''/w/node_modules/grpc-tools/bin/protoc'' \<noteq> []" by simp
  note t = three_flavors_from_one_schema_set [OF h1 h2 h3, THEN conjunct1]
  show ?thesis
    by (rule conjI, rule t) (use demo_compile in simp)
qed

lemma exec_all_last:
  "exec_all sys [c1, c2, c3, c4] fs = ([c1, c2, c3, c4], None, fs') \<Longrightarrow>
     \<exists>before_export out. exec_all sys [c1, c2, c3] fs = ([c1, c2, c3], None, before_export)
        \<and> execSync sys c4 before_export = (Inr out, fs')"
  by (auto split: prod.splits sum.splits)

text \<open>
  C7. In a run of \<open>compileProtos\<close> that returns with a protoc resolved, the descriptor
  export is the last call: \<open>execSync\<close> is called once with the protoc path,
  \<open>--proto_path\<close>, one \<open>--descriptor_set_out\<close> naming the file \<open>descriptor_set.pb\<close> inside the
  descriptor directory, \<open>--include_imports\<close>, and then the names of all the schema files
  that were listed, joined with spaces as they are; it runs on the file tree the three
  stub commands left, it succeeds, and the file tree of the run is the one it leaves.
  (What protoc puts into the file is protoc's part.)
\<close>

theorem descriptor_export_single_artifact:
  assumes "compileProtos sys st = (Returned (), st')"
    and "RESOLVED_PROTOC st' = Some protoc" and "protoc \<noteq> []"
  shows "(\<exists>s1 s2 protoFiles before_export out.
      (let command =
             join '' ''
               ([protoc,
                 ''--proto_path='' @ quoted (PROTO_DIR sys),
                 ''--descriptor_set_out='' @ quoted (DESCRIPTOR_OUT_DIR sys @ ''/descriptor_set.pb''),
                 ''--include_imports'']
                @ protoFiles)
       in checkAppleSiliconCompatibility sys
            (console_log [Str ''Compiling Protocol Buffers...''] st) = (Returned (), s1)
          \<and> locateProtoc sys s1 = (Returned (), s2)
          \<and> globby sys ''**/*.proto'' (PROTO_DIR sys) (files s2) = Inr protoFiles
          \<and> exec_all sys
               [tsProtoc_command sys protoc (TS_OUT_DIR sys) protoFiles TS_PROTO_OPTIONS,
                tsProtoc_command sys protoc (GRPC_JS_OUT_DIR sys) protoFiles
                  (''outputServices=grpc-js'' # TS_PROTO_OPTIONS),
                tsProtoc_command sys protoc (NICE_JS_OUT_DIR sys) protoFiles
                  (''outputServices=nice-grpc,useExactTypes=false'' # TS_PROTO_OPTIONS)] (files s2)
              = ([tsProtoc_command sys protoc (TS_OUT_DIR sys) protoFiles TS_PROTO_OPTIONS,
                  tsProtoc_command sys protoc (GRPC_JS_OUT_DIR sys) protoFiles
                    (''outputServices=grpc-js'' # TS_PROTO_OPTIONS),
                  tsProtoc_command sys protoc (NICE_JS_OUT_DIR sys) protoFiles
                    (''outputServices=nice-grpc,useExactTypes=false'' # TS_PROTO_OPTIONS)],
                 None, before_export)
          \<and> execSync sys command before_export = (Inr out, files st')
          \<and> calls (events st') = calls (events s2) @
              [Mkdir (TS_OUT_DIR sys), Mkdir (GRPC_JS_OUT_DIR sys), Mkdir (NICE_JS_OUT_DIR sys),
               Mkdir (DESCRIPTOR_OUT_DIR sys), Globby ''**/*.proto'' (PROTO_DIR sys),
               ExecSync (tsProtoc_command sys protoc (TS_OUT_DIR sys) protoFiles TS_PROTO_OPTIONS),
               ExecSync (tsProtoc_command sys protoc (GRPC_JS_OUT_DIR sys) protoFiles
                  (''outputServices=grpc-js'' # TS_PROTO_OPTIONS)),
               ExecSync (tsProtoc_command sys protoc (NICE_JS_OUT_DIR sys) protoFiles
                  (''outputServices=nice-grpc,useExactTypes=false'' # TS_PROTO_OPTIONS)),
               ExecSync command]))
    \<and> descriptorFile sys = DESCRIPTOR_OUT_DIR sys @ ''/descriptor_set.pb''"
proof -
  from compileProtos_Returned [OF assms] obtain s1 s2 s3 s4 protoFiles where
    a: "checkAppleSiliconCompatibility sys
             (console_log [Str ''Compiling Protocol Buffers...''] st) = (Returned (), s1)"
    and l: "locateProtoc sys s1 = (Returned (), s2)"
    and m: "mkdir_all sys
                [TS_OUT_DIR sys, GRPC_JS_OUT_DIR sys, NICE_JS_OUT_DIR sys, DESCRIPTOR_OUT_DIR sys] s2
               = (Returned (), s3)"
    and f: "find_protos sys s3 = (Returned protoFiles, s4)"
    and p: "process_proto_files sys protoc protoFiles s4 = (Returned (), st')"
    by blast
  note g = generation_Returned [OF m f p]
  from g have "exec_all sys
           [tsProtoc_command sys protoc (TS_OUT_DIR sys) protoFiles TS_PROTO_OPTIONS,
            tsProtoc_command sys protoc (GRPC_JS_OUT_DIR sys) protoFiles
              (''outputServices=grpc-js'' # TS_PROTO_OPTIONS),
            tsProtoc_command sys protoc (NICE_JS_OUT_DIR sys) protoFiles
              (''outputServices=nice-grpc,useExactTypes=false'' # TS_PROTO_OPTIONS),
            descriptorProtocCommand sys protoc protoFiles] (files s2)
           = ([tsProtoc_command sys protoc (TS_OUT_DIR sys) protoFiles TS_PROTO_OPTIONS,
               tsProtoc_command sys protoc (GRPC_JS_OUT_DIR sys) protoFiles
                 (''outputServices=grpc-js'' # TS_PROTO_OPTIONS),
               tsProtoc_command sys protoc (NICE_JS_OUT_DIR sys) protoFiles
                 (''outputServices=nice-grpc,useExactTypes=false'' # TS_PROTO_OPTIONS),
               descriptorProtocCommand sys protoc protoFiles], None, files st')"
    by blast
  from exec_all_last [OF this] obtain before_export out where
    b: "exec_all sys
           [tsProtoc_command sys protoc (TS_OUT_DIR sys) protoFiles TS_PROTO_OPTIONS,
            tsProtoc_command sys protoc (GRPC_JS_OUT_DIR sys) protoFiles
              (''outputServices=grpc-js'' # TS_PROTO_OPTIONS),
            tsProtoc_command sys protoc (NICE_JS_OUT_DIR sys) protoFiles
              (''outputServices=nice-grpc,useExactTypes=false'' # TS_PROTO_OPTIONS)] (files s2)
           = ([tsProtoc_command sys protoc (TS_OUT_DIR sys) protoFiles TS_PROTO_OPTIONS,
               tsProtoc_command sys protoc (GRPC_JS_OUT_DIR sys) protoFiles
                 (''outputServices=grpc-js'' # TS_PROTO_OPTIONS),
               tsProtoc_command sys protoc (NICE_JS_OUT_DIR sys) protoFiles
                 (''outputServices=nice-grpc,useExactTypes=false'' # TS_PROTO_OPTIONS)],
              None, before_export)"
    and x: "execSync sys (descriptorProtocCommand sys protoc protoFiles) before_export
              = (Inr out, files st')"
    by blast
  have "(let command =
             join '' ''
               ([protoc,
                 ''--proto_path='' @ quoted (PROTO_DIR sys),
                 ''--descriptor_set_out='' @ quoted (DESCRIPTOR_OUT_DIR sys @ ''/descriptor_set.pb''),
                 ''--include_imports'']
                @ protoFiles)
       in checkAppleSiliconCompatibility sys
            (console_log [Str ''Compiling Protocol Buffers...''] st) = (Returned (), s1)
          \<and> locateProtoc sys s1 = (Returned (), s2)
          \<and> globby sys ''**/*.proto'' (PROTO_DIR sys) (files s2) = Inr protoFiles
          \<and> exec_all sys
               [tsProtoc_command sys protoc (TS_OUT_DIR sys) protoFiles TS_PROTO_OPTIONS,
                tsProtoc_command sys protoc (GRPC_JS_OUT_DIR sys) protoFiles
                  (''outputServices=grpc-js'' # TS_PROTO_OPTIONS),
                tsProtoc_command sys protoc (NICE_JS_OUT_DIR sys) protoFiles
                  (''outputServices=nice-grpc,useExactTypes=false'' # TS_PROTO_OPTIONS)] (files s2)
              = ([tsProtoc_command sys protoc (TS_OUT_DIR sys) protoFiles TS_PROTO_OPTIONS,
                  tsProtoc_command sys protoc (GRPC_JS_OUT_DIR sys) protoFiles
                    (''outputServices=grpc-js'' # TS_PROTO_OPTIONS),
                  tsProtoc_command sys protoc (NICE_JS_OUT_DIR sys) protoFiles
                    (''outputServices=nice-grpc,useExactTypes=false'' # TS_PROTO_OPTIONS)],
                 None, before_export)
          \<and> execSync sys command before_export = (Inr out, files st')
          \<and> calls (events st') = calls (events s2) @
              [Mkdir (TS_OUT_DIR sys), Mkdir (GRPC_JS_OUT_DIR sys), Mkdir (NICE_JS_OUT_DIR sys),
               Mkdir (DESCRIPTOR_OUT_DIR sys), Globby ''**/*.proto'' (PROTO_DIR sys),
               ExecSync (tsProtoc_command sys protoc (TS_OUT_DIR sys) protoFiles TS_PROTO_OPTIONS),
               ExecSync (tsProtoc_command sys protoc (GRPC_JS_OUT_DIR sys) protoFiles
                  (''outputServices=grpc-js'' # TS_PROTO_OPTIONS)),
               ExecSync (tsProtoc_command sys protoc (NICE_JS_OUT_DIR sys) protoFiles
                  (''outputServices=nice-grpc,useExactTypes=false'' # TS_PROTO_OPTIONS)),
               ExecSync command])"
    unfolding Let_def
    using a l g b x [unfolded descriptorProtocCommand_spelled]
    by (simp add: descriptorProtocCommand_spelled)
  moreover have "descriptorFile sys = DESCRIPTOR_OUT_DIR sys @ ''/descriptor_set.pb''"
    by (simp add: descriptorFile_def path_join_def)
  ultimately show ?thesis by blast
qed

theorem descriptor_export_single_artifact_witness:
  "(\<exists>s1 s2 protoFiles before_export out.
      (let command =
             join '' ''
               ([''/w/node_modules/grpc-tools/bin/protoc'',
                 ''--proto_path='' @ quoted (PROTO_DIR (demo_sys Map.empty False)),
                 ''--descriptor_set_out='' @ quoted (DESCRIPTOR_OUT_DIR (demo_sys Map.empty False) @ ''/descriptor_set.pb''),
                 ''--include_imports'']
                @ protoFiles)
       in checkAppleSiliconCompatibility (demo_sys Map.empty False)
            (console_log [Str ''Compiling Protocol Buffers...''] (fresh demo_fs)) = (Returned (), s1)
          \<and> locateProtoc (demo_sys Map.empty False) s1 = (Returned (), s2)
          \<and> globby (demo_sys Map.empty False) ''**/*.proto'' (PROTO_DIR (demo_sys Map.empty False)) (files s2) = Inr protoFiles
          \<and> exec_all (demo_sys Map.empty False)
               [tsProtoc_command (demo_sys Map.empty False) ''/w/node_modules/grpc-tools/bin/protoc'' (TS_OUT_DIR (demo_sys Map.empty False)) protoFiles TS_PROTO_OPTIONS,
                tsProtoc_command (demo_sys Map.empty False) ''/w/node_modules/grpc-tools/bin/protoc'' (GRPC_JS_OUT_DIR (demo_sys Map.empty False)) protoFiles
                  (''outputServices=grpc-js'' # TS_PROTO_OPTIONS),
                tsProtoc_command (demo_sys Map.empty False) ''/w/node_modules/grpc-tools/bin/protoc'' (NICE_JS_OUT_DIR (demo_sys Map.empty False)) protoFiles
                  (''outputServices=nice-grpc,useExactTypes=false'' # TS_PROTO_OPTIONS)] (files s2)
              = ([tsProtoc_command (demo_sys Map.empty False) ''/w/node_modules/grpc-tools/bin/protoc'' (TS_OUT_DIR (demo_sys Map.empty False)) protoFiles TS_PROTO_OPTIONS,
                  tsProtoc_command (demo_sys Map.empty False) ''/w/node_modules/grpc-tools/bin/protoc'' (GRPC_JS_OUT_DIR (demo_sys Map.empty False)) protoFiles
                    (''outputServices=grpc-js'' # TS_PROTO_OPTIONS),
                  tsProtoc_command (demo_sys Map.empty False) ''/w/node_modules/grpc-tools/bin/protoc'' (NICE_JS_OUT_DIR (demo_sys Map.empty False)) protoFiles
                    (''outputServices=nice-grpc,useExactTypes=false'' # TS_PROTO_OPTIONS)],
                 None, before_export)
          \<and> execSync (demo_sys Map.empty False) command before_export = (Inr out, files (snd (compileProtos (demo_sys Map.empty False) (fresh demo_fs))))
          \<and> calls (events (snd (compileProtos (demo_sys Map.empty False) (fresh demo_fs)))) = calls (events s2) @
              [Mkdir (TS_OUT_DIR (demo_sys Map.empty False)), Mkdir (GRPC_JS_OUT_DIR (demo_sys Map.empty False)), Mkdir (NICE_JS_OUT_DIR (demo_sys Map.empty False)),
               Mkdir (DESCRIPTOR_OUT_DIR (demo_sys Map.empty False)), Globby ''**/*.proto'' (PROTO_DIR (demo_sys Map.empty False)),
               ExecSync (tsProtoc_command (demo_sys Map.empty False) ''/w/node_modules/grpc-tools/bin/protoc'' (TS_OUT_DIR (demo_sys Map.empty False)) protoFiles TS_PROTO_OPTIONS),
               ExecSync (tsProtoc_command (demo_sys Map.empty False) ''/w/node_modules/grpc-tools/bin/protoc'' (GRPC_JS_OUT_DIR (demo_sys Map.empty False)) protoFiles
                  (''outputServices=grpc-js'' # TS_PROTO_OPTIONS)),
               ExecSync (tsProtoc_command (demo_sys Map.empty False) ''/w/node_modules/grpc-tools/bin/protoc'' (NICE_JS_OUT_DIR (demo_sys Map.empty False)) protoFiles
                  (''outputServices=nice-grpc,useExactTypes=false'' # TS_PROTO_OPTIONS)),
               ExecSync command]))
   \<and> files (snd (compileProtos (demo_sys Map.empty False) (fresh demo_fs)))
         ''/w/dist-standalone/proto/descriptor_set.pb'' = Some ''descriptor''"
proof -
  let ?D = "demo_sys Map.empty False"
  let ?r = "compileProtos ?D (fresh demo_fs)"
  have h1: "?r = (Returned (), snd ?r)"
    using demo_compile by (cases ?r) simp
  have h2: "RESOLVED_PROTOC (snd ?r) = Some ''/w/node_modules/grpc-tools/bin/protoc''"
    using demo_compile by simp
  have h3: "''/w/node_modules/grpc-tools/bin/protoc'' \<noteq> []" by simp
  note t = descriptor_export_single_artifact [OF h1 h2 h3, THEN conjunct1]
  show ?thesis
    by (rule conjI, rule t) (use demo_compile in simp)
qed

subsection \<open>A generation command that fails\<close>

lemma demo_broken_run:
  "(case build_proto (demo_sys Map.empty True) (fresh demo_fs) of
      (r, S) \<Rightarrow> r = Exit 1
        \<and> files S ''/w/src/generated/grpc-js/a.ts'' = Some ''half a stub''
        \<and> files S ''/w/src/shared/proto/a.ts'' = Some ''generic stub'')"
  by code_simp

text \<open>
  C2, as stated: a failing generation command leaves no partial output for its target.
  The script only reports and exits: in the world where the grpc-js command writes half
  a file and fails, the process ends with code 1 and the half file is in the grpc-js
  directory, beside the finished output of the target before it.
\<close>

theorem failed_target_leaves_partial_output:
  "fst (build_proto (demo_sys Map.empty True) (fresh demo_fs)) = Exit 1
   \<and> files (snd (build_proto (demo_sys Map.empty True) (fresh demo_fs)))
         ''/w/src/generated/grpc-js/a.ts'' = Some ''half a stub''
   \<and> files (snd (build_proto (demo_sys Map.empty True) (fresh demo_fs)))
         ''/w/src/shared/proto/a.ts'' = Some ''generic stub''"
  using demo_broken_run by (simp add: split_beta)

text \<open>
  C2, amended: in a run that reaches the generation commands (the module loaded, the run
  is not skipped, a protoc is resolved, the directories are made and the schema files
  listed), when one of the three stub commands or the descriptor export fails, the
  process ends with code 1. The commands that were run are the first of the four up to
  the failed one, which is the last call of the run: no later target, no descriptor
  export and neither generator follows. The last two events are the failed command and
  one \<open>console.error\<close> with the script's message and the error thrown for that command,
  which names the command and with it the output directory of the target. The file tree
  is the one the failed command left: nothing is removed or rolled back.
\<close>

theorem failed_generation_command_ends_run:
  assumes loaded: "load_module sys = Inr plugin"
    and skip: "env sys ''SKIP_PROTOS'' \<noteq> Some ''1''"
    and apple: "checkAppleSiliconCompatibility sys
                  (console_log [Str ''Compiling Protocol Buffers...''] (cleanup sys (fresh fs0)))
                = (Returned (), s1)"
    and located: "locateProtoc sys s1 = (Returned (), s2)"
    and protoc: "RESOLVED_PROTOC s2 = Some protoc" "protoc \<noteq> []"
    and dirs: "mkdir_all sys
                 [TS_OUT_DIR sys, GRPC_JS_OUT_DIR sys, NICE_JS_OUT_DIR sys, DESCRIPTOR_OUT_DIR sys] s2
               = (Returned (), s3)"
    and listed: "find_protos sys s3 = (Returned protoFiles, s4)"
    and failed: "exec_all sys
                   [tsProtoc_command sys protoc (TS_OUT_DIR sys) protoFiles TS_PROTO_OPTIONS,
                    tsProtoc_command sys protoc (GRPC_JS_OUT_DIR sys) protoFiles
                      (''outputServices=grpc-js'' # TS_PROTO_OPTIONS),
                    tsProtoc_command sys protoc (NICE_JS_OUT_DIR sys) protoFiles
                      (''outputServices=nice-grpc,useExactTypes=false'' # TS_PROTO_OPTIONS),
                    descriptorProtocCommand sys protoc protoFiles] (files s4)
                 = (executed, Some (command, message), fs')"
  shows "fst (build_proto sys (fresh fs0)) = Exit 1
     \<and> exit_code (build_proto sys (fresh fs0)) = 1
     \<and> files (snd (build_proto sys (fresh fs0))) = fs'
     \<and> calls (events (snd (build_proto sys (fresh fs0)))) =
          map Rmrf (cleanup_paths sys) @ map ExecSync (execs (events s2))
          @ [Mkdir (TS_OUT_DIR sys), Mkdir (GRPC_JS_OUT_DIR sys), Mkdir (NICE_JS_OUT_DIR sys),
             Mkdir (DESCRIPTOR_OUT_DIR sys), Globby ''**/*.proto'' (PROTO_DIR sys)]
          @ map ExecSync executed
     \<and> executed = take (length executed)
          [tsProtoc_command sys protoc (TS_OUT_DIR sys) protoFiles TS_PROTO_OPTIONS,
           tsProtoc_command sys protoc (GRPC_JS_OUT_DIR sys) protoFiles
             (''outputServices=grpc-js'' # TS_PROTO_OPTIONS),
           tsProtoc_command sys protoc (NICE_JS_OUT_DIR sys) protoFiles
             (''outputServices=nice-grpc,useExactTypes=false'' # TS_PROTO_OPTIONS),
           descriptorProtocCommand sys protoc protoFiles]
     \<and> last executed = command
     \<and> (\<exists>pre. events (snd (build_proto sys (fresh fs0))) = pre @
           [ExecSync command,
            ConsoleError
              [Str (if length executed = 4
                    then ''Error generating descriptor set for proto file:''
                    else ''Error generating TypeScript for proto files:''),
               Err (ExecError command message)]])"
proof -
  let ?cs = "[tsProtoc_command sys protoc (TS_OUT_DIR sys) protoFiles TS_PROTO_OPTIONS,
              tsProtoc_command sys protoc (GRPC_JS_OUT_DIR sys) protoFiles
                (''outputServices=grpc-js'' # TS_PROTO_OPTIONS),
              tsProtoc_command sys protoc (NICE_JS_OUT_DIR sys) protoFiles
                (''outputServices=nice-grpc,useExactTypes=false'' # TS_PROTO_OPTIONS),
              descriptorProtocCommand sys protoc protoFiles]"
  obtain r S where p: "process_proto_files sys protoc protoFiles s4 = (r, S)"
    by (cases "process_proto_files sys protoc protoFiles s4")
  note o = process_proto_files_outcome [OF failed p]
  have r: "r = Exit 1" using o by simp
  have g: "generate sys protoc s2 = (Exit 1, S)"
    using dirs listed p r by (simp add: generate_def)
  have c: "compileProtos sys (cleanup sys (fresh fs0)) = (Exit 1, S)"
    using apple located protoc g by (simp add: compileProtos_def)
  have m: "main sys (fresh fs0) = (Exit 1, S)" using skip c by (simp add: main_def)
  have b: "build_proto sys (fresh fs0) = (Exit 1, S)"
    using loaded m by (simp add: build_proto_def run_def)
  from checkApple_calls [OF apple] obtain xs where
    1: "calls (events s1) = map Rmrf (cleanup_paths sys) @ map ExecSync xs"
    by (auto simp: cleanup_calls fresh_def)
  from locateProtoc_calls [OF located] obtain ys where
    2: "calls (events s2) = calls (events s1) @ map ExecSync ys" by blast
  have "execs (calls (events s2)) = xs @ ys" unfolding 2 1 by simp
  then have e: "execs (events s2) = xs @ ys" by simp
  have c2: "calls (events s2) = map Rmrf (cleanup_paths sys) @ map ExecSync (execs (events s2))"
    unfolding e using 1 2 by simp
  have c4: "calls (events s4) = calls (events s2) @
      [Mkdir (TS_OUT_DIR sys), Mkdir (GRPC_JS_OUT_DIR sys), Mkdir (NICE_JS_OUT_DIR sys),
       Mkdir (DESCRIPTOR_OUT_DIR sys), Globby ''**/*.proto'' (PROTO_DIR sys)]"
    using mkdir_all_Returned [OF dirs] find_protos_Returned [OF listed] by simp
  have cS: "calls (events S) = map Rmrf (cleanup_paths sys) @ map ExecSync (execs (events s2))
          @ [Mkdir (TS_OUT_DIR sys), Mkdir (GRPC_JS_OUT_DIR sys), Mkdir (NICE_JS_OUT_DIR sys),
             Mkdir (DESCRIPTOR_OUT_DIR sys), Globby ''**/*.proto'' (PROTO_DIR sys)]
          @ map ExecSync executed"
    using o c4 c2 by simp
  note f = exec_all_failed [OF failed]
  show ?thesis
    unfolding b using o cS f by (simp add: exit_code_def)
qed

theorem failed_generation_command_ends_run_witness:
  "fst (build_proto (demo_sys Map.empty True) (fresh demo_fs)) = Exit 1
   \<and> exit_code (build_proto (demo_sys Map.empty True) (fresh demo_fs)) = 1
   \<and> (\<exists>pre. events (snd (build_proto (demo_sys Map.empty True) (fresh demo_fs))) = pre @
         [ExecSync (tsProtoc_command (demo_sys Map.empty True) ''/w/node_modules/grpc-tools/bin/protoc'' (GRPC_JS_OUT_DIR (demo_sys Map.empty True)) [''a.proto''] (''outputServices=grpc-js'' # TS_PROTO_OPTIONS)),
          ConsoleError
            [Str ''Error generating TypeScript for proto files:'',
             Err (ExecError (tsProtoc_command (demo_sys Map.empty True) ''/w/node_modules/grpc-tools/bin/protoc'' (GRPC_JS_OUT_DIR (demo_sys Map.empty True)) [''a.proto''] (''outputServices=grpc-js'' # TS_PROTO_OPTIONS))
                    (''Command failed: '' @ tsProtoc_command (demo_sys Map.empty True) ''/w/node_modules/grpc-tools/bin/protoc'' (GRPC_JS_OUT_DIR (demo_sys Map.empty True)) [''a.proto''] (''outputServices=grpc-js'' # TS_PROTO_OPTIONS)))]])"
proof -
  let ?D = "(demo_sys Map.empty True)"
  let ?s1 = "(console_log [Str ''Compiling Protocol Buffers...''] (cleanup (demo_sys Map.empty True) (fresh demo_fs)))"
  let ?s2 = "(snd (locateProtoc (demo_sys Map.empty True) (console_log [Str ''Compiling Protocol Buffers...''] (cleanup (demo_sys Map.empty True) (fresh demo_fs)))))"
  let ?dirs = "[TS_OUT_DIR ?D, GRPC_JS_OUT_DIR ?D, NICE_JS_OUT_DIR ?D, DESCRIPTOR_OUT_DIR ?D]"
  let ?s3 = "snd (mkdir_all ?D ?dirs ?s2)"
  let ?s4 = "snd (find_protos ?D ?s3)"
  let ?cs = "[tsProtoc_command (demo_sys Map.empty True) ''/w/node_modules/grpc-tools/bin/protoc'' (TS_OUT_DIR (demo_sys Map.empty True)) [''a.proto''] TS_PROTO_OPTIONS,
      tsProtoc_command (demo_sys Map.empty True) ''/w/node_modules/grpc-tools/bin/protoc'' (GRPC_JS_OUT_DIR (demo_sys Map.empty True)) [''a.proto''] (''outputServices=grpc-js'' # TS_PROTO_OPTIONS),
      tsProtoc_command (demo_sys Map.empty True) ''/w/node_modules/grpc-tools/bin/protoc'' (NICE_JS_OUT_DIR (demo_sys Map.empty True)) [''a.proto''] (''outputServices=nice-grpc,useExactTypes=false'' # TS_PROTO_OPTIONS),
      descriptorProtocCommand (demo_sys Map.empty True) ''/w/node_modules/grpc-tools/bin/protoc'' [''a.proto'']]"
  let ?X = "exec_all ?D ?cs (files ?s4)"
  have loaded: "load_module ?D = Inr ''/w/node_modules/ts-proto/protoc-gen-ts_proto''"
    by (simp add: load_module_def demo_sys_def isWindows_def)
  have skip: "env ?D ''SKIP_PROTOS'' \<noteq> Some ''1''" by (simp add: demo_sys_def)
  have apple: "checkAppleSiliconCompatibility ?D ?s1 = (Returned (), ?s1)"
    by (simp add: checkAppleSiliconCompatibility_def demo_sys_def)
  have located: "locateProtoc ?D ?s1 = (Returned (), ?s2)"
    using demo_broken_located by (cases "locateProtoc ?D ?s1") simp
  have protoc: "RESOLVED_PROTOC ?s2 = Some ''/w/node_modules/grpc-tools/bin/protoc''" using demo_broken_located by simp
  have ne: "''/w/node_modules/grpc-tools/bin/protoc'' \<noteq> []" by simp
  have dirs: "mkdir_all ?D ?dirs ?s2 = (Returned (), ?s3)"
    by (simp add: demo_sys_def Let_def)
  have listed: "find_protos ?D ?s3 = (Returned [''a.proto''], ?s4)"
    by (simp add: find_protos_def demo_sys_def Let_def)
  have fs: "files ?s4 = files ?s2"
    using mkdir_all_Returned [OF dirs] find_protos_Returned [OF listed] by simp
  note failed = triple_case [OF demo_broken_commands, folded fs]
  show ?thesis
    using failed_generation_command_ends_run
      [OF loaded skip apple located protoc ne dirs listed failed]
    by simp
qed

end
